theory Spec2Isabelle
  imports Complex_Main "HOL-Library.Multiset" "HOL-Library.AList" "HOL-Library.Sublist"
begin

section \<open>Values and messages\<close>

text \<open>
  JavaScript values as far as the orchestration layer inspects them. Numbers are
  modelled as integers plus the one non-integer value the comparison operators treat
  specially (\<open>NaN\<close>). An object is a reference (its identity under \<^verbatim>\<open>===\<close>) together
  with its own properties in insertion order; inherited properties are not modelled.
\<close>

datatype jsval =
    JUndefined
  | JNull
  | JBool bool
  | JNum int
  | JNaN
  | JStr string
  | JObj nat "(string \<times> jsval) list"

type_synonym jsrecord = "(string \<times> jsval) list"

text \<open>The \<^verbatim>\<open>IMessage\<close> interface; optional fields are options.\<close>

record message =
  msg_id :: string
  msg_type :: string
  payload :: jsval
  timestamp :: int
  priority :: "string option"
  metadata :: "jsrecord option"
  headers :: "(string \<times> string) list option"
  partition :: "string option"
  subject :: "string option"
  channel :: "string option"

section \<open>UniversalMessageQueue\<close>

record message_queue =
  queues :: "string \<rightharpoonup> message list"
  processing :: "string set"
  dlq :: "string \<rightharpoonup> message list"

definition maxQueueSize :: nat where
  "maxQueueSize = 10000"

definition new_message_queue :: message_queue where
  "new_message_queue = \<lparr> queues = Map.empty, processing = {}, dlq = Map.empty \<rparr>"

text \<open>\<^verbatim>\<open>getPriorityValue\<close>: a switch on the priority string with default 2.\<close>

definition getPriorityValue :: "string option \<Rightarrow> nat" where
  "getPriorityValue p =
     (if p = Some ''critical'' then 4
      else if p = Some ''high'' then 3
      else if p = Some ''normal'' then 2
      else if p = Some ''low'' then 1
      else 2)"

text \<open>
  The search loop of \<^verbatim>\<open>enqueue\<close>: \<open>i\<close> runs over the queue from the front and the loop
  breaks at the first entry whose priority value is strictly below the new one; when no
  entry is, the index stays at the queue's length.
\<close>

fun findInsertIndex :: "nat \<Rightarrow> message list \<Rightarrow> nat \<Rightarrow> nat" where
  "findInsertIndex p [] i = i"
| "findInsertIndex p (x # xs) i =
     (if getPriorityValue (priority x) < p then i else findInsertIndex p xs (Suc i))"

text \<open>\<^verbatim>\<open>queue.splice(insertIndex, 0, message)\<close>.\<close>

definition splice_insert :: "nat \<Rightarrow> 'a \<Rightarrow> 'a list \<Rightarrow> 'a list" where
  "splice_insert i x xs = take i xs @ x # drop i xs"

definition enqueueToDLQ :: "message_queue \<Rightarrow> string \<Rightarrow> message \<Rightarrow> message_queue" where
  "enqueueToDLQ s topic m =
     (let d = (if dlq s topic = None then (dlq s)(topic \<mapsto> []) else dlq s)
      in s\<lparr> dlq := d(topic \<mapsto> the (d topic) @ [m]) \<rparr>)"

definition enqueue :: "message_queue \<Rightarrow> string \<Rightarrow> message \<Rightarrow> message_queue" where
  "enqueue s topic m =
     (let qs = (if queues s topic = None then (queues s)(topic \<mapsto> []) else queues s);
          s1 = s\<lparr> queues := qs \<rparr>;
          queue = the (qs topic)
      in if length queue \<ge> maxQueueSize then enqueueToDLQ s1 topic m
         else
           let p = getPriorityValue (priority m);
               insertIndex = findInsertIndex p queue 0
           in s1\<lparr> queues := qs(topic \<mapsto> splice_insert insertIndex m queue) \<rparr>)"

text \<open>
  \<^verbatim>\<open>dequeue\<close>: \<^verbatim>\<open>queue?.shift() || null\<close>. A message object is never falsy, so the
  result is \<open>None\<close> (JavaScript \<^verbatim>\<open>null\<close>) exactly when the topic is unknown or its
  queue is empty.
\<close>

definition dequeue :: "message_queue \<Rightarrow> string \<Rightarrow> message option \<times> message_queue" where
  "dequeue s topic =
     (case queues s topic of
        None \<Rightarrow> (None, s)
      | Some [] \<Rightarrow> (None, s)
      | Some (m # rest) \<Rightarrow> (Some m, s\<lparr> queues := (queues s)(topic \<mapsto> rest) \<rparr>))"

definition getDLQMessages :: "message_queue \<Rightarrow> string \<Rightarrow> message list" where
  "getDLQMessages s topic = (case dlq s topic of None \<Rightarrow> [] | Some d \<Rightarrow> d)"

definition getQueueSize :: "message_queue \<Rightarrow> string \<Rightarrow> nat" where
  "getQueueSize s topic = (case queues s topic of None \<Rightarrow> 0 | Some q \<Rightarrow> length q)"

definition clear :: "message_queue \<Rightarrow> string option \<Rightarrow> message_queue" where
  "clear s topic =
     (case topic of
        Some t \<Rightarrow> (if t \<noteq> [] then s\<lparr> queues := (queues s)(t := None), dlq := (dlq s)(t := None) \<rparr>
                   else s\<lparr> queues := Map.empty, dlq := Map.empty \<rparr>)
      | None \<Rightarrow> s\<lparr> queues := Map.empty, dlq := Map.empty \<rparr>)"

text \<open>The live queue of a topic as a list (empty for an unknown topic).\<close>

definition liveQueue :: "message_queue \<Rightarrow> string \<Rightarrow> message list" where
  "liveQueue s topic = (case queues s topic of None \<Rightarrow> [] | Some q \<Rightarrow> q)"

text \<open>A sequence of \<^verbatim>\<open>enqueue\<close> calls on one topic, and \<open>n\<close> successive \<^verbatim>\<open>dequeue\<close> calls.\<close>

definition enqueue_all :: "message_queue \<Rightarrow> string \<Rightarrow> message list \<Rightarrow> message_queue" where
  "enqueue_all s topic ms = fold (\<lambda>m s'. enqueue s' topic m) ms s"

primrec dequeue_n :: "nat \<Rightarrow> message_queue \<Rightarrow> string \<Rightarrow> message option list" where
  "dequeue_n 0 s topic = []"
| "dequeue_n (Suc n) s topic =
     (case dequeue s topic of (r, s') \<Rightarrow> r # dequeue_n n s' topic)"

abbreviation prio :: "message \<Rightarrow> nat" where
  "prio m \<equiv> getPriorityValue (priority m)"

text \<open>Insertion by priority, written recursively; the loop and the splice compute it.\<close>

fun insert_by_priority :: "message \<Rightarrow> message list \<Rightarrow> message list" where
  "insert_by_priority m [] = [m]"
| "insert_by_priority m (x # xs) =
     (if prio x < prio m then m # x # xs else x # insert_by_priority m xs)"

abbreviation by_priority :: "message list \<Rightarrow> bool" where
  "by_priority q \<equiv> sorted_wrt (\<lambda>a b. prio b \<le> prio a) q"

text \<open>Example messages used to run the definitions on concrete inputs.\<close>

definition example_message :: "string \<Rightarrow> string option \<Rightarrow> message" where
  "example_message i p =
     \<lparr> msg_id = i, msg_type = ''orders'', payload = JNull, timestamp = 0, priority = p,
       metadata = None, headers = None, partition = None, subject = None, channel = None \<rparr>"

definition full_queue :: message_queue where
  "full_queue = \<lparr> queues = [''orders'' \<mapsto> replicate 10000 (example_message ''old'' None)],
                  processing = {}, dlq = Map.empty \<rparr>"

section \<open>UniversalPerformanceMonitor\<close>

text \<open>
  The two \<^verbatim>\<open>Map\<close>s of the monitor as association lists in insertion order. Latency
  samples are integers (millisecond differences of \<^verbatim>\<open>Date.now()\<close>).
\<close>

record performance_monitor =
  metrics :: "(string \<times> int list) list"
  brokerMetrics :: "(string \<times> jsrecord) list"

definition maxSamples :: nat where
  "maxSamples = 1000"

definition new_performance_monitor :: performance_monitor where
  "new_performance_monitor = \<lparr> metrics = [], brokerMetrics = [] \<rparr>"

text \<open>\<^verbatim>\<open>broker ? `${broker}.${operation}` : operation\<close>; the empty string is falsy.\<close>

definition latency_key :: "string \<Rightarrow> string option \<Rightarrow> string" where
  "latency_key operation broker =
     (case broker of
        None \<Rightarrow> operation
      | Some b \<Rightarrow> if b = [] then operation else b @ ''.'' @ operation)"

definition recordLatency ::
  "performance_monitor \<Rightarrow> string \<Rightarrow> int \<Rightarrow> string option \<Rightarrow> performance_monitor" where
  "recordLatency pm operation latency broker =
     (let key = latency_key operation broker;
          ms = (if map_of (metrics pm) key = None then AList.update key [] (metrics pm)
                else metrics pm);
          pushed = the (map_of ms key) @ [latency];
          samples = (if length pushed > maxSamples then tl pushed else pushed)
      in pm\<lparr> metrics := AList.update key samples ms \<rparr>)"

definition recordBrokerMetrics ::
  "performance_monitor \<Rightarrow> string \<Rightarrow> jsrecord \<Rightarrow> int \<Rightarrow> performance_monitor" where
  "recordBrokerMetrics pm broker m now =
     pm\<lparr> brokerMetrics :=
           AList.update broker (AList.update ''timestamp'' (JNum now) m) (brokerMetrics pm) \<rparr>"

definition getAverageLatency :: "performance_monitor \<Rightarrow> string \<Rightarrow> string option \<Rightarrow> rat" where
  "getAverageLatency pm operation broker =
     (case map_of (metrics pm) (latency_key operation broker) of
        None \<Rightarrow> 0
      | Some samples \<Rightarrow>
          if length samples = 0 then 0
          else of_int (sum_list samples) / of_nat (length samples))"

text \<open>
  \<^verbatim>\<open>getPercentile\<close>: sort a copy ascending, take \<^verbatim>\<open>Math.ceil((length * percentile) / 100) - 1\<close>
  as index and return \<^verbatim>\<open>sorted[index] || 0\<close>: an index outside the array reads
  \<^verbatim>\<open>undefined\<close>, which like the sample \<open>0\<close> is falsy and yields \<open>0\<close>.
\<close>

definition getPercentile :: "int list \<Rightarrow> int \<Rightarrow> int" where
  "getPercentile arr percentile =
     (let sorted = sort arr;
          index = \<lceil>(of_nat (length sorted) * of_int percentile) / (100 :: rat)\<rceil> - 1
      in if 0 \<le> index \<and> index < int (length sorted) \<and> sorted ! nat index \<noteq> 0
         then sorted ! nat index else 0)"

record latency_stats =
  avg :: rat
  min_latency :: int
  max_latency :: int
  count_samples :: nat
  p95 :: int
  p99 :: int

text \<open>The object built for one key of \<^verbatim>\<open>getMetrics\<close>; it is only built for a non-empty window.\<close>

definition latency_entry :: "int list \<Rightarrow> latency_stats" where
  "latency_entry samples =
     \<lparr> avg = of_int (sum_list samples) / of_nat (length samples),
       min_latency = fold min (tl samples) (hd samples),
       max_latency = fold max (tl samples) (hd samples),
       count_samples = length samples,
       p95 = getPercentile samples 95,
       p99 = getPercentile samples 99 \<rparr>"

record metrics_report =
  latency :: "(string \<times> latency_stats) list"
  brokers :: "(string \<times> jsrecord) list"

definition getMetrics :: "performance_monitor \<Rightarrow> metrics_report" where
  "getMetrics pm =
     \<lparr> latency = map (\<lambda>(operation, samples). (operation, latency_entry samples))
                   (filter (\<lambda>(operation, samples). length samples > 0) (metrics pm)),
       brokers = brokerMetrics pm \<rparr>"

text \<open>The nearest-rank index \<open>ceil(n * percentile / 100) - 1\<close>.\<close>

definition nearest_rank_index :: "nat \<Rightarrow> int \<Rightarrow> int" where
  "nearest_rank_index n percentile = \<lceil>(of_nat n * of_int percentile) / (100 :: rat)\<rceil> - 1"

section \<open>JavaScript operators used by the filter matcher\<close>

text \<open>Truthiness: \<^verbatim>\<open>undefined\<close>, \<^verbatim>\<open>null\<close>, \<^verbatim>\<open>false\<close>, \<open>0\<close>, \<^verbatim>\<open>NaN\<close> and the empty string are falsy.\<close>

fun truthy :: "jsval \<Rightarrow> bool" where
  "truthy JUndefined = False"
| "truthy JNull = False"
| "truthy (JBool b) = b"
| "truthy (JNum n) = (n \<noteq> 0)"
| "truthy JNaN = False"
| "truthy (JStr s) = (s \<noteq> [])"
| "truthy (JObj r ps) = True"

text \<open>\<^verbatim>\<open>a || b\<close>.\<close>

definition js_or :: "jsval \<Rightarrow> jsval \<Rightarrow> jsval" where
  "js_or a b = (if truthy a then a else b)"

text \<open>\<^verbatim>\<open>a === b\<close>: no coercion, \<^verbatim>\<open>NaN\<close> differs from itself, objects compare by reference.\<close>

fun strict_eq :: "jsval \<Rightarrow> jsval \<Rightarrow> bool" where
  "strict_eq JUndefined JUndefined = True"
| "strict_eq JNull JNull = True"
| "strict_eq (JBool a) (JBool b) = (a = b)"
| "strict_eq (JNum a) (JNum b) = (a = b)"
| "strict_eq (JStr a) (JStr b) = (a = b)"
| "strict_eq (JObj r ps) (JObj r' ps') = (r = r')"
| "strict_eq a b = False"

text \<open>
  \<^verbatim>\<open>x?.[key]\<close>: \<^verbatim>\<open>undefined\<close> when \<open>x\<close> is \<^verbatim>\<open>undefined\<close> or \<^verbatim>\<open>null\<close>, otherwise the own
  property of that name, or \<^verbatim>\<open>undefined\<close> when there is none. Properties found on the
  prototype chain, and the length and index properties of a string, are outside the
  model.
\<close>

fun js_get :: "jsval \<Rightarrow> string \<Rightarrow> jsval" where
  "js_get (JObj r ps) key = (case map_of ps key of None \<Rightarrow> JUndefined | Some v \<Rightarrow> v)"
| "js_get v key = JUndefined"

definition record_get :: "jsrecord option \<Rightarrow> string \<Rightarrow> jsval" where
  "record_get r key =
     (case r of
        None \<Rightarrow> JUndefined
      | Some ps \<Rightarrow> (case map_of ps key of None \<Rightarrow> JUndefined | Some v \<Rightarrow> v))"

text \<open>Decimal numerals, for \<^verbatim>\<open>String(n)\<close> on an integer (below the exponent notation range).\<close>

function show_nat :: "nat \<Rightarrow> string" where
  "show_nat n =
     (if n < 10 then [''0123456789'' ! n]
      else show_nat (n div 10) @ [''0123456789'' ! (n mod 10)])"
  by pat_completeness auto
termination
  by (relation "measure id") auto

definition show_int :: "int \<Rightarrow> string" where
  "show_int i = (if i < 0 then ''-'' @ show_nat (nat (- i)) else show_nat (nat i))"

text \<open>\<^verbatim>\<open>String(v)\<close>; a plain object prints as \<^verbatim>\<open>[object Object]\<close>.\<close>

fun js_String :: "jsval \<Rightarrow> string" where
  "js_String JUndefined = ''undefined''"
| "js_String JNull = ''null''"
| "js_String (JBool b) = (if b then ''true'' else ''false'')"
| "js_String (JNum n) = show_int n"
| "js_String JNaN = ''NaN''"
| "js_String (JStr s) = s"
| "js_String (JObj r ps) = ''[object Object]''"

subsection \<open>The regular expressions that wildcard filters produce\<close>

text \<open>
  \<^verbatim>\<open>value.replace(/\*/g, '.*')\<close> replaces every star of the filter value.
\<close>

fun replace_stars :: "string \<Rightarrow> string" where
  "replace_stars [] = []"
| "replace_stars (c # cs) =
     (if c = CHR ''*'' then ''.*'' @ replace_stars cs else c # replace_stars cs)"

text \<open>
  The pattern language that is modelled: a literal character, \<^verbatim>\<open>.\<close> (any character but a
  line terminator) and \<^verbatim>\<open>.*\<close>. A pattern that uses any other regular-expression syntax
  (one of the characters below outside this use) is not modelled: \<open>RegExp_new\<close> returns
  \<open>None\<close> for it, and so does the matcher.
\<close>

datatype rx_item = RLit char | RAny | RAnyStar

definition rx_special :: "char \<Rightarrow> bool" where
  "rx_special c =
     (c \<in> set [CHR 0x5C, CHR ''^'', CHR ''$'', CHR ''*'', CHR ''+'', CHR ''?'', CHR ''('', CHR '')'',
               CHR ''['', CHR '']'', CHR ''{'', CHR ''}'', CHR ''|''])"

fun RegExp_new :: "string \<Rightarrow> rx_item list option" where
  "RegExp_new [] = Some []"
| "RegExp_new (c # cs) =
     (if c = CHR ''.'' then
        (case cs of
           d # ds \<Rightarrow>
             if d = CHR ''*'' then map_option (Cons RAnyStar) (RegExp_new ds)
             else map_option (Cons RAny) (RegExp_new cs)
         | [] \<Rightarrow> Some [RAny])
      else if rx_special c then None
      else map_option (Cons (RLit c)) (RegExp_new cs))"

definition line_terminator :: "char \<Rightarrow> bool" where
  "line_terminator c = (c = CHR 0x0A \<or> c = CHR 0x0D)"

text \<open>Does the pattern match at the start of the string?\<close>

fun rx_match_here :: "rx_item list \<Rightarrow> string \<Rightarrow> bool" where
  "rx_match_here [] s = True"
| "rx_match_here (RLit c # r) [] = False"
| "rx_match_here (RLit c # r) (x # xs) = (x = c \<and> rx_match_here r xs)"
| "rx_match_here (RAny # r) [] = False"
| "rx_match_here (RAny # r) (x # xs) = (\<not> line_terminator x \<and> rx_match_here r xs)"
| "rx_match_here (RAnyStar # r) [] = rx_match_here r []"
| "rx_match_here (RAnyStar # r) (x # xs) =
     (rx_match_here r (x # xs) \<or> (\<not> line_terminator x \<and> rx_match_here (RAnyStar # r) xs))"

text \<open>\<^verbatim>\<open>regex.test(s)\<close> without flags: a match starting at some position of \<open>s\<close>.\<close>

fun RegExp_test :: "rx_item list \<Rightarrow> string \<Rightarrow> bool" where
  "RegExp_test r [] = rx_match_here r []"
| "RegExp_test r (x # xs) = (rx_match_here r (x # xs) \<or> RegExp_test r xs)"

section \<open>UniversalSubscriptionManager\<close>

text \<open>
  \<^verbatim>\<open>msgValue\<close>: the payload's value under the key, or, when that is falsy, the
  metadata's.
\<close>

definition msgValue :: "message \<Rightarrow> string \<Rightarrow> jsval" where
  "msgValue m key = js_or (js_get (payload m) key) (record_get (metadata m) key)"

text \<open>The callback given to \<^verbatim>\<open>every\<close>, for one entry of the filters.\<close>

definition filter_entry_matches :: "message \<Rightarrow> string \<Rightarrow> jsval \<Rightarrow> bool option" where
  "filter_entry_matches m key v =
     (case v of
        JStr s \<Rightarrow>
          if CHR ''*'' \<in> set s then
            map_option (\<lambda>regex. RegExp_test regex (js_String (msgValue m key)))
              (RegExp_new (replace_stars s))
          else Some (strict_eq (msgValue m key) v)
      | _ \<Rightarrow> Some (strict_eq (msgValue m key) v))"

text \<open>\<^verbatim>\<open>Array.prototype.every\<close>: stops at the first entry whose callback returns false.\<close>

fun every_entry :: "message \<Rightarrow> (string \<times> jsval) list \<Rightarrow> bool option" where
  "every_entry m [] = Some True"
| "every_entry m ((key, v) # es) =
     (case filter_entry_matches m key v of
        None \<Rightarrow> None
      | Some False \<Rightarrow> Some False
      | Some True \<Rightarrow> every_entry m es)"

definition matchesFilters :: "message \<Rightarrow> jsrecord option \<Rightarrow> bool option" where
  "matchesFilters m filters =
     (case filters of
        None \<Rightarrow> Some True
      | Some fs \<Rightarrow> every_entry m fs)"

text \<open>A filter value that takes the wildcard branch: a string that contains a star.\<close>

definition is_wildcard :: "jsval \<Rightarrow> bool" where
  "is_wildcard v = (case v of JStr s \<Rightarrow> CHR ''*'' \<in> set s | _ \<Rightarrow> False)"

text \<open>
  The wildcard reading in the specification's words: a star stands for zero or more
  characters and the pattern may match anywhere inside the candidate (substring style),
  that is, the pattern matches the whole candidate once a star is put on either side.
\<close>

fun wildcard_match :: "string \<Rightarrow> string \<Rightarrow> bool" where
  "wildcard_match [] s = (s = [])"
| "wildcard_match (c # p) [] = (c = CHR ''*'' \<and> wildcard_match p [])"
| "wildcard_match (c # p) (x # xs) =
     (if c = CHR ''*'' then wildcard_match p (x # xs) \<or> wildcard_match (c # p) xs
      else c = x \<and> wildcard_match p xs)"

definition wildcard_substring_match :: "string \<Rightarrow> string \<Rightarrow> bool" where
  "wildcard_substring_match p s = wildcard_match (''*'' @ p @ ''*'') s"

text \<open>
  Filter values on which the two readings can be compared: no dot and no other character
  with a meaning in regular expressions, apart from the star itself.
\<close>

definition plain_pattern :: "string \<Rightarrow> bool" where
  "plain_pattern s = (\<forall>c \<in> set s. c \<noteq> CHR ''.'' \<and> (c = CHR ''*'' \<or> \<not> rx_special c))"

definition rx_of :: "string \<Rightarrow> rx_item list" where
  "rx_of p = map (\<lambda>c. if c = CHR ''*'' then RAnyStar else RLit c) p"

text \<open>Example messages for the filter matcher.\<close>

definition region_message :: "string \<Rightarrow> message" where
  "region_message r =
     \<lparr> msg_id = ''m1'', msg_type = ''user.login'',
       payload = JObj 1 [(''userId'', JNum 123), (''region'', JStr r)], timestamp = 0,
       priority = None, metadata = Some [(''source'', JStr ''mobile-app'')], headers = None,
       partition = None, subject = None, channel = None \<rparr>"

definition zero_count_message :: message where
  "zero_count_message =
     \<lparr> msg_id = ''m2'', msg_type = ''stock'', payload = JObj 2 [(''count'', JNum 0)],
       timestamp = 0, priority = None, metadata = None, headers = None, partition = None,
       subject = None, channel = None \<rparr>"

section \<open>RetryHandler\<close>

datatype console_line = ConsoleError string | ConsoleWarn string | ConsoleLog string

text \<open>How a promise returned by an \<^verbatim>\<open>async\<close> method settles.\<close>

datatype promise_outcome = Fulfilled | Rejected

text \<open>
  The handler's fields. \<^verbatim>\<open>maxRetries\<close> and \<^verbatim>\<open>retryDelay\<close> are constructor parameters
  (defaults 3 and 1000); the counters are a \<^verbatim>\<open>Map\<close> from message id to a number.
\<close>

record retry_handler =
  retryCount :: "string \<rightharpoonup> nat"
  maxRetries :: int
  retryDelay :: int

definition new_retry_handler :: "int \<Rightarrow> int \<Rightarrow> retry_handler" where
  "new_retry_handler max_retries retry_delay =
     \<lparr> retryCount = Map.empty, maxRetries = max_retries, retryDelay = retry_delay \<rparr>"

definition retry_handler_priority :: int where
  "retry_handler_priority = 15"

definition retry_canHandle :: "message \<Rightarrow> bool" where
  "retry_canHandle m = strict_eq (record_get (metadata m) ''retry'') (JBool True)"

text \<open>\<^verbatim>\<open>processMessage\<close> throws unconditionally.\<close>

definition processMessage :: "message \<Rightarrow> string + unit" where
  "processMessage m = Inl (''Message processing not implemented'' @ ''[object Object]'')"

text \<open>
  What one call of \<^verbatim>\<open>handle\<close> does: the handler afterwards, how the returned promise
  settles, the console lines written, and the timers started with \<^verbatim>\<open>setTimeout\<close>, each
  as its delay and the line its callback logs when it fires.
\<close>

record retry_effect =
  handler_after :: retry_handler
  settled :: promise_outcome
  console_out :: "console_line list"
  timers :: "(int \<times> console_line) list"

definition retry_handle :: "retry_handler \<Rightarrow> message \<Rightarrow> retry_effect" where
  "retry_handle rh m =
     (let currentRetries = (case retryCount rh (msg_id m) of None \<Rightarrow> 0 | Some c \<Rightarrow> c)
      in if int currentRetries \<ge> maxRetries rh then
           \<lparr> handler_after = rh\<lparr> retryCount := (retryCount rh)(msg_id m := None) \<rparr>,
             settled = Fulfilled,
             console_out = [ConsoleError (''Message '' @ msg_id m @ '' exceeded max retries (''
                              @ show_int (maxRetries rh) @ '')'')],
             timers = [] \<rparr>
         else
           (case processMessage m of
              Inr u \<Rightarrow>
                \<lparr> handler_after = rh\<lparr> retryCount := (retryCount rh)(msg_id m := None) \<rparr>,
                  settled = Fulfilled, console_out = [], timers = [] \<rparr>
            | Inl error \<Rightarrow>
                \<lparr> handler_after = rh\<lparr> retryCount := (retryCount rh)(msg_id m \<mapsto> currentRetries + 1) \<rparr>,
                  settled = Fulfilled,
                  console_out = [ConsoleWarn (''Message '' @ msg_id m @ '' failed, retrying... (attempt ''
                                   @ show_int (int currentRetries + 1) @ '')'')],
                  timers = [(retryDelay rh * 2 ^ currentRetries,
                             ConsoleLog (''Retrying message '' @ msg_id m))] \<rparr>))"

text \<open>The per-id counter as \<^verbatim>\<open>handle\<close> reads it: \<^verbatim>\<open>retryCount.get(id) || 0\<close>.\<close>

definition currentRetries :: "retry_handler \<Rightarrow> string \<Rightarrow> nat" where
  "currentRetries rh i = (case retryCount rh i of None \<Rightarrow> 0 | Some c \<Rightarrow> c)"

text \<open>A handler whose counter for message \<open>a\<close> has reached \<open>maxRetries = 3\<close>.\<close>

definition exhausted_handler :: retry_handler where
  "exhausted_handler = \<lparr> retryCount = [''a'' \<mapsto> 3], maxRetries = 3, retryDelay = 1000 \<rparr>"

section \<open>CircuitBreaker\<close>















section \<open>UniversalHandlerRegistry\<close>




























section \<open>UniversalSubscriptionManager: the registry of subscriptions\<close>

text \<open>\<^verbatim>\<open>ISubscription\<close>; the callback is a function value of some type \<open>'cb\<close>.\<close>

record 'cb subscription =
  sub_id :: string
  sub_topic :: string
  sub_filters :: "jsrecord option"
  callback :: 'cb
  sub_priority :: "int option"
  consumerGroup :: "string option"
  queueGroup :: "string option"

text \<open>
  The two \<^verbatim>\<open>Map\<close>s, as association lists in insertion order: topic to (id to
  subscription), and topic to the set of subscriber ids.
\<close>

record 'cb subscription_manager =
  subscriptions :: "(string \<times> (string \<times> 'cb subscription) list) list"
  topicSubscribers :: "(string \<times> string list) list"

definition new_subscription_manager :: "'cb subscription_manager" where
  "new_subscription_manager = \<lparr> subscriptions = [], topicSubscribers = [] \<rparr>"

datatype js_error = TypeError

text \<open>
  \<^verbatim>\<open>subscribe\<close>. The non-null assertion on \<^verbatim>\<open>topicSubscribers.get(topic)\<close> is a
  \<^verbatim>\<open>TypeError\<close> at run time when the topic has no subscriber set; the subscription has
  been stored by then.
\<close>

definition subscribe ::
  "'cb subscription_manager \<Rightarrow> 'cb subscription \<Rightarrow> (js_error + string) \<times> 'cb subscription_manager" where
  "subscribe sm subscription =
     (let topic = sub_topic subscription; i = sub_id subscription;
          sm1 = (if map_of (subscriptions sm) topic = None
                 then sm\<lparr> subscriptions := AList.update topic [] (subscriptions sm),
                          topicSubscribers := AList.update topic [] (topicSubscribers sm) \<rparr>
                 else sm);
          sm2 = sm1\<lparr> subscriptions :=
                  AList.update topic
                    (AList.update i subscription (the (map_of (subscriptions sm1) topic)))
                    (subscriptions sm1) \<rparr>
      in case map_of (topicSubscribers sm2) topic of
           None \<Rightarrow> (Inl TypeError, sm2)
         | Some ids \<Rightarrow>
             (Inr i, sm2\<lparr> topicSubscribers :=
                  AList.update topic (List.insert i ids) (topicSubscribers sm2) \<rparr>))"

definition unsubscribe ::
  "'cb subscription_manager \<Rightarrow> string \<Rightarrow> string \<Rightarrow> bool \<times> 'cb subscription_manager" where
  "unsubscribe sm topic subscriptionId =
     (case map_of (subscriptions sm) topic of
        None \<Rightarrow> (False, sm)
      | Some topicSubs \<Rightarrow>
          let removed = (map_of topicSubs subscriptionId \<noteq> None);
              topicSubs' = AList.delete subscriptionId topicSubs;
              ts = (case map_of (topicSubscribers sm) topic of
                      None \<Rightarrow> topicSubscribers sm
                    | Some ids \<Rightarrow>
                        AList.update topic (removeAll subscriptionId ids) (topicSubscribers sm))
          in if length topicSubs' = 0
             then (removed, sm\<lparr> subscriptions := AList.delete topic (subscriptions sm),
                                topicSubscribers := AList.delete topic ts \<rparr>)
             else (removed, sm\<lparr> subscriptions := AList.update topic topicSubs' (subscriptions sm),
                                topicSubscribers := ts \<rparr>))"

definition getSubscriptions :: "'cb subscription_manager \<Rightarrow> string \<Rightarrow> 'cb subscription list" where
  "getSubscriptions sm topic =
     (case map_of (subscriptions sm) topic of None \<Rightarrow> [] | Some subs \<Rightarrow> map snd subs)"

definition getAllTopics :: "'cb subscription_manager \<Rightarrow> string list" where
  "getAllTopics sm = map fst (subscriptions sm)"

text \<open>The calls that change the registry, and the registry after a sequence of them.\<close>

datatype 'cb subscription_call = Subscribe "'cb subscription" | Unsubscribe string string

fun apply_subscription_call ::
  "'cb subscription_call \<Rightarrow> 'cb subscription_manager \<Rightarrow> 'cb subscription_manager" where
  "apply_subscription_call (Subscribe s) sm = snd (subscribe sm s)"
| "apply_subscription_call (Unsubscribe topic i) sm = snd (unsubscribe sm topic i)"

definition subscriptions_after :: "'cb subscription_call list \<Rightarrow> 'cb subscription_manager" where
  "subscriptions_after calls = fold apply_subscription_call calls new_subscription_manager"

text \<open>
  The topic keys are distinct (they are the keys of a \<^verbatim>\<open>Map\<close>) and no topic is kept
  with an empty subscription map.
\<close>

definition subscriptions_wf :: "'cb subscription_manager \<Rightarrow> bool" where
  "subscriptions_wf sm =
     (distinct (map fst (subscriptions sm)) \<and> (\<forall>t. map_of (subscriptions sm) t \<noteq> Some []))"

section \<open>UniversalMessageManager\<close>

text \<open>
  The adapter is an external collaborator with a state of its own (\<open>'a\<close>).
  \<^verbatim>\<open>adapter.publish\<close> either resolves, and then the two \<^verbatim>\<open>Date.now()\<close> readings around it
  differ by some number of milliseconds, or it rejects.
\<close>

datatype publish_outcome = Published int | PublishFailed string

record 'a broker_adapter =
  adapter_publish :: "'a \<Rightarrow> string \<Rightarrow> message \<Rightarrow> publish_outcome \<times> 'a"
  getType :: string

text \<open>
  The fields of the manager that publishing and the drain loop use, and the console.
\<close>

record ('a, 'cb) message_manager =
  adapter :: 'a
  subscriptionManager :: "'cb subscription_manager"
  messageQueue :: message_queue
  performanceMonitor :: performance_monitor
  isProcessing :: bool
  console :: "console_line list"

text \<open>The body of the loop of \<^verbatim>\<open>processQueues\<close> for one topic.\<close>

definition processTopic ::
  "'a broker_adapter \<Rightarrow> ('a, 'cb) message_manager \<Rightarrow> string \<Rightarrow> ('a, 'cb) message_manager" where
  "processTopic ad mgr topic =
     (case dequeue (messageQueue mgr) topic of
        (None, q) \<Rightarrow> mgr\<lparr> messageQueue := q \<rparr>
      | (Some m, q) \<Rightarrow>
          (case adapter_publish ad (adapter mgr) topic m of
             (Published elapsed, a) \<Rightarrow>
               mgr\<lparr> adapter := a, messageQueue := q,
                    performanceMonitor :=
                      recordLatency (performanceMonitor mgr) ''publish'' elapsed (Some (getType ad)) \<rparr>
           | (PublishFailed error, a) \<Rightarrow>
               mgr\<lparr> adapter := a, messageQueue := enqueue q topic m,
                    console := console mgr @
                      [ConsoleError (''Failed to publish message for topic '' @ topic @ '': '' @ error)] \<rparr>))"

definition processQueues ::
  "'a broker_adapter \<Rightarrow> ('a, 'cb) message_manager \<Rightarrow> ('a, 'cb) message_manager" where
  "processQueues ad mgr =
     fold (\<lambda>topic mgr'. processTopic ad mgr' topic) (getAllTopics (subscriptionManager mgr)) mgr"

text \<open>The interval callback of \<^verbatim>\<open>startProcessing\<close>: one tick of the drain loop.\<close>

definition tick ::
  "'a broker_adapter \<Rightarrow> ('a, 'cb) message_manager \<Rightarrow> ('a, 'cb) message_manager" where
  "tick ad mgr =
     (if isProcessing mgr then mgr
      else (processQueues ad (mgr\<lparr> isProcessing := True \<rparr>))\<lparr> isProcessing := False \<rparr>)"

text \<open>
  \<^verbatim>\<open>Partial<IMessage>\<close>: the options of \<^verbatim>\<open>publish\<close>; a field that is present overrides
  the field of the message built.
\<close>

record message_options =
  opt_id :: "string option"
  opt_type :: "string option"
  opt_payload :: "jsval option"
  opt_timestamp :: "int option"
  opt_priority :: "string option"
  opt_metadata :: "jsrecord option"
  opt_headers :: "(string \<times> string) list option"
  opt_partition :: "string option"
  opt_subject :: "string option"
  opt_channel :: "string option"

definition no_options :: message_options where
  "no_options =
     \<lparr> opt_id = None, opt_type = None, opt_payload = None, opt_timestamp = None,
       opt_priority = None, opt_metadata = None, opt_headers = None, opt_partition = None,
       opt_subject = None, opt_channel = None \<rparr>"

text \<open>
  The message that \<^verbatim>\<open>publish\<close> builds. \<open>now\<close> is the reading of \<^verbatim>\<open>Date.now()\<close> and \<open>rnd\<close>
  the random part of the generated id.
\<close>

definition build_message ::
  "string \<Rightarrow> jsval \<Rightarrow> message_options option \<Rightarrow> int \<Rightarrow> string \<Rightarrow> message" where
  "build_message topic pl options now rnd =
     (let base = \<lparr> msg_id = ''msg_'' @ show_int now @ ''_'' @ rnd, msg_type = topic,
                   payload = pl, timestamp = now, priority = None, metadata = None,
                   headers = None, partition = None, subject = None, channel = None \<rparr>
      in case options of
           None \<Rightarrow> base
         | Some opts \<Rightarrow>
             \<lparr> msg_id = (case opt_id opts of None \<Rightarrow> msg_id base | Some v \<Rightarrow> v),
               msg_type = (case opt_type opts of None \<Rightarrow> msg_type base | Some v \<Rightarrow> v),
               payload = (case opt_payload opts of None \<Rightarrow> payload base | Some v \<Rightarrow> v),
               timestamp = (case opt_timestamp opts of None \<Rightarrow> timestamp base | Some v \<Rightarrow> v),
               priority = opt_priority opts, metadata = opt_metadata opts,
               headers = opt_headers opts, partition = opt_partition opts,
               subject = opt_subject opts, channel = opt_channel opts \<rparr>)"

definition publish ::
  "('a, 'cb) message_manager \<Rightarrow> string \<Rightarrow> jsval \<Rightarrow> message_options option \<Rightarrow> int \<Rightarrow> string
     \<Rightarrow> ('a, 'cb) message_manager" where
  "publish mgr topic pl options now rnd =
     mgr\<lparr> messageQueue := enqueue (messageQueue mgr) topic (build_message topic pl options now rnd) \<rparr>"

definition getQueueSizes :: "('a, 'cb) message_manager \<Rightarrow> (string \<times> nat) list" where
  "getQueueSizes mgr =
     map (\<lambda>topic. (topic, getQueueSize (messageQueue mgr) topic))
       (getAllTopics (subscriptionManager mgr))"

text \<open>No live queue is longer than \<open>maxQueueSize\<close>: \<open>enqueue\<close> keeps it so.\<close>

definition within_capacity :: "message_queue \<Rightarrow> bool" where
  "within_capacity q = (\<forall>t. length (liveQueue q t) \<le> maxQueueSize)"

text \<open>The manager as the loop finds it when it reaches \<open>topic\<close> during a tick.\<close>

definition manager_at ::
  "'a broker_adapter \<Rightarrow> ('a, 'cb) message_manager \<Rightarrow> string \<Rightarrow> ('a, 'cb) message_manager" where
  "manager_at ad mgr topic =
     fold (\<lambda>t mgr'. processTopic ad mgr' t)
       (takeWhile (\<lambda>t. t \<noteq> topic) (getAllTopics (subscriptionManager mgr)))
       (mgr\<lparr> isProcessing := True \<rparr>)"

text \<open>The loop of \<^verbatim>\<open>processQueues\<close> over a list of topics.\<close>

abbreviation drain ::
  "'a broker_adapter \<Rightarrow> string list \<Rightarrow> ('a, 'cb) message_manager \<Rightarrow> ('a, 'cb) message_manager" where
  "drain ad ts mgr \<equiv> fold (\<lambda>t mgr'. processTopic ad mgr' t) ts mgr"

text \<open>
  An example for the drain loop: an adapter that counts its publish calls and fails on
  topic \<^verbatim>\<open>orders\<close>, and a manager with subscriptions on \<^verbatim>\<open>orders\<close> and \<^verbatim>\<open>audit\<close> and
  messages queued on those two topics and on \<^verbatim>\<open>orphan\<close>, which nobody subscribes to.
\<close>

definition flaky_adapter :: "nat broker_adapter" where
  "flaky_adapter =
     \<lparr> adapter_publish =
         (\<lambda>calls topic m.
            (if topic = ''orders'' then PublishFailed ''down'' else Published 5, Suc calls)),
       getType = ''redis'' \<rparr>"

definition example_subscription :: "string \<Rightarrow> string \<Rightarrow> unit subscription" where
  "example_subscription i topic =
     \<lparr> sub_id = i, sub_topic = topic, sub_filters = None, callback = (),
       sub_priority = None, consumerGroup = None, queueGroup = None \<rparr>"

definition example_manager :: "(nat, unit) message_manager" where
  "example_manager =
     \<lparr> adapter = 0,
       subscriptionManager =
         \<lparr> subscriptions =
             [(''orders'', [(''s1'', example_subscription ''s1'' ''orders'')]),
              (''audit'', [(''s2'', example_subscription ''s2'' ''audit'')])],
           topicSubscribers = [(''orders'', [''s1'']), (''audit'', [''s2''])] \<rparr>,
       messageQueue =
         \<lparr> queues = [''orders'' \<mapsto> [example_message ''a'' (Some ''high''),
                                    example_message ''b'' (Some ''high'')],
                     ''audit'' \<mapsto> [example_message ''c'' None],
                     ''orphan'' \<mapsto> [example_message ''d'' (Some ''critical'')]],
           processing = {}, dlq = Map.empty \<rparr>,
       performanceMonitor = new_performance_monitor,
       isProcessing = False,
       console = [] \<rparr>"

chapter \<open>Properties\<close>

subsection \<open>The insertion loop\<close>

lemma findInsertIndex_ge: "i \<le> findInsertIndex p xs i"
  by (induction xs arbitrary: i) (auto intro: Suc_leD)

lemma findInsertIndex_shift:
  "findInsertIndex p xs (Suc i) = Suc (findInsertIndex p xs i)"
  by (induction xs arbitrary: i) auto

lemma splice_insert_eq:
  "splice_insert (findInsertIndex (prio m) q 0) m q = insert_by_priority m q"
  by (induction q) (auto simp: splice_insert_def findInsertIndex_shift)

lemma length_insert_by_priority [simp]:
  "length (insert_by_priority m q) = Suc (length q)"
  by (induction q) auto

lemma mset_insert_by_priority [simp]:
  "mset (insert_by_priority m q) = add_mset m (mset q)"
  by (induction q) auto

lemma set_insert_by_priority [simp]:
  "set (insert_by_priority m q) = insert m (set q)"
  by (induction q) auto

lemma sorted_insert_by_priority:
  "by_priority q \<Longrightarrow> by_priority (insert_by_priority m q)"
  by (induction q) (auto simp: not_less intro: order_trans less_imp_le)

lemma filter_insert_by_priority:
  "by_priority q \<Longrightarrow>
   filter (\<lambda>x. prio x = p) (insert_by_priority m q) =
   filter (\<lambda>x. prio x = p) q @ (if prio m = p then [m] else [])"
proof (induction q)
  case Nil
  show ?case by simp
next
  case (Cons x xs)
  show ?case
  proof (cases "prio x < prio m")
    case True
    with Cons.prems have "\<forall>y \<in> set (x # xs). prio y < prio m"
      by auto
    then have "filter (\<lambda>y. prio y = prio m) (x # xs) = []"
      by (auto simp: filter_empty_conv)
    with True show ?thesis by auto
  next
    case False
    with Cons show ?thesis by auto
  qed
qed

subsection \<open>Enqueue and dequeue on the state\<close>

lemma liveQueue_enqueue_below:
  "length (liveQueue s t) < maxQueueSize \<Longrightarrow>
   liveQueue (enqueue s t m) t = insert_by_priority m (liveQueue s t)"
  by (auto simp: enqueue_def liveQueue_def Let_def splice_insert_eq enqueueToDLQ_def
      split: option.splits)

lemma liveQueue_enqueue_full:
  "maxQueueSize \<le> length (liveQueue s t) \<Longrightarrow> liveQueue (enqueue s t m) t = liveQueue s t"
  by (auto simp: enqueue_def liveQueue_def Let_def enqueueToDLQ_def maxQueueSize_def
      split: option.splits)

lemma liveQueue_enqueue_other:
  "t' \<noteq> t \<Longrightarrow> liveQueue (enqueue s t m) t' = liveQueue s t'"
  by (auto simp: enqueue_def liveQueue_def Let_def enqueueToDLQ_def split: option.splits)

lemma getDLQMessages_enqueue_below:
  "length (liveQueue s t) < maxQueueSize \<Longrightarrow> dlq (enqueue s t m) = dlq s"
  by (auto simp: enqueue_def liveQueue_def Let_def enqueueToDLQ_def split: option.splits)

lemma getDLQMessages_enqueue_full:
  "maxQueueSize \<le> length (liveQueue s t) \<Longrightarrow>
   getDLQMessages (enqueue s t m) t = getDLQMessages s t @ [m]"
  by (auto simp: enqueue_def liveQueue_def Let_def enqueueToDLQ_def getDLQMessages_def
      maxQueueSize_def split: option.splits)

lemma getDLQMessages_enqueue_other:
  "t' \<noteq> t \<Longrightarrow> getDLQMessages (enqueue s t m) t' = getDLQMessages s t'"
  by (auto simp: enqueue_def Let_def enqueueToDLQ_def getDLQMessages_def split: option.splits)

lemma queues_enqueue_full:
  "maxQueueSize \<le> length (liveQueue s t) \<Longrightarrow> queues (enqueue s t m) = queues s"
  by (auto simp: enqueue_def liveQueue_def Let_def enqueueToDLQ_def maxQueueSize_def
      split: option.splits)

lemma liveQueue_dequeue:
  "liveQueue (snd (dequeue s t)) t' = (if t' = t then tl (liveQueue s t) else liveQueue s t')"
  by (auto simp: dequeue_def liveQueue_def split: option.splits list.splits)

lemma fst_dequeue:
  "fst (dequeue s t) = (case liveQueue s t of [] \<Rightarrow> None | m # _ \<Rightarrow> Some m)"
  by (auto simp: dequeue_def liveQueue_def split: option.splits list.splits)

lemma dlq_dequeue [simp]: "dlq (snd (dequeue s t)) = dlq s"
  by (auto simp: dequeue_def split: option.splits list.splits)

lemma dequeue_n_eq:
  "dequeue_n n s t =
   map Some (take n (liveQueue s t)) @ replicate (n - length (liveQueue s t)) None"
proof (induction n arbitrary: s)
  case 0
  show ?case by simp
next
  case (Suc n)
  obtain r s' where d: "dequeue s t = (r, s')"
    by (cases "dequeue s t")
  have r: "r = (case liveQueue s t of [] \<Rightarrow> None | m # _ \<Rightarrow> Some m)"
    using fst_dequeue [of s t] d by simp
  have q: "liveQueue s' t = tl (liveQueue s t)"
    using liveQueue_dequeue [of s t t] d by simp
  show ?case
  proof (cases "liveQueue s t")
    case Nil
    with d r q Suc.IH [of s'] show ?thesis
      by (simp add: replicate_Suc [symmetric] del: replicate_Suc)
  next
    case (Cons m rest)
    with d r q Suc.IH [of s'] show ?thesis by simp
  qed
qed

text \<open>
  A run of enqueues on one topic: the first \<open>maxQueueSize - length q\<close> messages are inserted
  by priority, the others leave the live queue as it is.
\<close>

lemma liveQueue_enqueue_all:
  "liveQueue (enqueue_all s t ms) t =
   fold insert_by_priority (take (maxQueueSize - length (liveQueue s t)) ms) (liveQueue s t)"
  unfolding enqueue_all_def
proof (induction ms arbitrary: s)
  case Nil
  show ?case by simp
next
  case (Cons m ms)
  show ?case
  proof (cases "length (liveQueue s t) < maxQueueSize")
    case True
    then obtain k where k: "maxQueueSize - length (liveQueue s t) = Suc k"
      by (metis Suc_diff_Suc)
    then have "maxQueueSize - Suc (length (liveQueue s t)) = k"
      by simp
    with True k show ?thesis
      using Cons.IH [of "enqueue s t m"] by (simp add: liveQueue_enqueue_below)
  next
    case False
    then show ?thesis
      using Cons.IH [of "enqueue s t m"] by (simp add: liveQueue_enqueue_full)
  qed
qed

lemma sorted_fold_insert:
  "by_priority q \<Longrightarrow> by_priority (fold insert_by_priority ms q)"
  by (induction ms arbitrary: q) (auto simp: sorted_insert_by_priority)

lemma filter_fold_insert:
  "by_priority q \<Longrightarrow>
   filter (\<lambda>x. prio x = p) (fold insert_by_priority ms q) =
   filter (\<lambda>x. prio x = p) q @ filter (\<lambda>x. prio x = p) ms"
  by (induction ms arbitrary: q)
     (auto simp: sorted_insert_by_priority filter_insert_by_priority)

lemma liveQueue_new [simp]: "liveQueue new_message_queue t = []"
  by (simp add: liveQueue_def new_message_queue_def)

section \<open>Claims about the queue\<close>

text \<open>
  C1. After any sequence \<open>ms\<close> of enqueue calls on one topic of a fresh queue, the live
  queue \<open>q\<close> of the topic is in non-increasing priority order (critical 4, high 3,
  normal 2, low 1, no priority counting as normal 2); within each priority value its
  messages are those of the accepted enqueues in enqueue order; and \<open>n\<close> successive dequeue
  calls return the first \<open>n\<close> entries of \<open>q\<close> in order, followed by null for every call
  made once the queue is empty. A dequeue on a topic with nothing queued returns null.
\<close>

theorem C1_dequeue_priority_then_fifo:
  "by_priority (liveQueue (enqueue_all new_message_queue t ms) t)
   \<and> (\<forall>p. filter (\<lambda>x. prio x = p) (liveQueue (enqueue_all new_message_queue t ms) t) =
            filter (\<lambda>x. prio x = p) (take maxQueueSize ms))
   \<and> (\<forall>n. dequeue_n n (enqueue_all new_message_queue t ms) t =
            map Some (take n (liveQueue (enqueue_all new_message_queue t ms) t))
            @ replicate (n - length (liveQueue (enqueue_all new_message_queue t ms) t)) None)
   \<and> getPriorityValue (Some ''critical'') = 4 \<and> getPriorityValue (Some ''high'') = 3
   \<and> getPriorityValue (Some ''normal'') = 2 \<and> getPriorityValue (Some ''low'') = 1
   \<and> getPriorityValue None = getPriorityValue (Some ''normal'')
   \<and> (liveQueue s t' = [] \<longrightarrow> dequeue s t' = (None, s))"
proof -
  have q: "liveQueue (enqueue_all new_message_queue t ms) t =
           fold insert_by_priority (take maxQueueSize ms) []"
    by (simp add: liveQueue_enqueue_all)
  have e: "liveQueue s t' = [] \<longrightarrow> dequeue s t' = (None, s)"
    by (auto simp: liveQueue_def dequeue_def split: option.splits list.splits)
  have d: "getPriorityValue (Some ''critical'') = 4" "getPriorityValue (Some ''high'') = 3"
    "getPriorityValue (Some ''normal'') = 2" "getPriorityValue (Some ''low'') = 1"
    "getPriorityValue None = getPriorityValue (Some ''normal'')"
    by (simp_all add: getPriorityValue_def)
  show ?thesis
    using e d by (simp add: q sorted_fold_insert filter_fold_insert dequeue_n_eq)
qed

theorem C1_dequeue_priority_then_fifo_witness:
  "liveQueue new_message_queue ''orders'' = []
   \<and> dequeue new_message_queue ''orders'' = (None, new_message_queue)
   \<and> dequeue_n 6 (enqueue_all new_message_queue ''orders''
        [example_message ''a'' (Some ''low''), example_message ''b'' None,
         example_message ''c'' (Some ''critical''), example_message ''d'' (Some ''normal''),
         example_message ''e'' (Some ''critical'')]) ''orders''
      = [Some (example_message ''c'' (Some ''critical'')),
         Some (example_message ''e'' (Some ''critical'')),
         Some (example_message ''b'' None),
         Some (example_message ''d'' (Some ''normal'')),
         Some (example_message ''a'' (Some ''low'')), None]"
proof -
  let ?ms = "[example_message ''a'' (Some ''low''), example_message ''b'' None,
         example_message ''c'' (Some ''critical''), example_message ''d'' (Some ''normal''),
         example_message ''e'' (Some ''critical'')]"
  have q: "liveQueue (enqueue_all new_message_queue ''orders'' ?ms) ''orders'' =
        [example_message ''c'' (Some ''critical''), example_message ''e'' (Some ''critical''),
         example_message ''b'' None, example_message ''d'' (Some ''normal''),
         example_message ''a'' (Some ''low'')]"
    by (simp add: liveQueue_enqueue_all maxQueueSize_def getPriorityValue_def
        example_message_def)
  have h: "liveQueue new_message_queue ''orders'' = []"
    by simp
  from C1_dequeue_priority_then_fifo [of "''orders''" ?ms new_message_queue "''orders''"]
  have "dequeue_n 6 (enqueue_all new_message_queue ''orders'' ?ms) ''orders'' =
          map Some (take 6 (liveQueue (enqueue_all new_message_queue ''orders'' ?ms) ''orders''))
          @ replicate (6 - length (liveQueue (enqueue_all new_message_queue ''orders'' ?ms)
              ''orders'')) None"
    and "dequeue new_message_queue ''orders'' = (None, new_message_queue)"
    using h by blast+
  then show ?thesis
    using h by (simp add: q)
qed

text \<open>
  C2. \<open>enqueue\<close> is a total function of the queue state with no failure branch. When the
  topic's live queue holds \<open>maxQueueSize\<close> (10000) entries or more, the call leaves every
  live queue as it is and the topic's dead-letter list is the old one with the message
  appended at its end (one more entry), other topics' dead-letter lists being unchanged.
  When the live queue is below capacity, the dead-letter store is unchanged and the
  message is spliced into the live queue at the index the search loop found, so the
  live queue holds the old entries and the message, one entry more.
\<close>

theorem C2_enqueue_overflow_to_dlq:
  "maxQueueSize = 10000
   \<and> (maxQueueSize \<le> length (liveQueue s t) \<longrightarrow>
        queues (enqueue s t m) = queues s
        \<and> liveQueue (enqueue s t m) t = liveQueue s t
        \<and> getDLQMessages (enqueue s t m) t = getDLQMessages s t @ [m]
        \<and> (\<forall>t'. t' \<noteq> t \<longrightarrow> getDLQMessages (enqueue s t m) t' = getDLQMessages s t'))
   \<and> (length (liveQueue s t) < maxQueueSize \<longrightarrow>
        dlq (enqueue s t m) = dlq s
        \<and> liveQueue (enqueue s t m) t =
            splice_insert (findInsertIndex (prio m) (liveQueue s t) 0) m (liveQueue s t)
        \<and> mset (liveQueue (enqueue s t m) t) = add_mset m (mset (liveQueue s t))
        \<and> length (liveQueue (enqueue s t m) t) = Suc (length (liveQueue s t)))"
proof -
  have full: "maxQueueSize \<le> length (liveQueue s t) \<longrightarrow>
        queues (enqueue s t m) = queues s
        \<and> liveQueue (enqueue s t m) t = liveQueue s t
        \<and> getDLQMessages (enqueue s t m) t = getDLQMessages s t @ [m]
        \<and> (\<forall>t'. t' \<noteq> t \<longrightarrow> getDLQMessages (enqueue s t m) t' = getDLQMessages s t')"
    by (simp add: queues_enqueue_full liveQueue_enqueue_full getDLQMessages_enqueue_full
        getDLQMessages_enqueue_other)
  have below: "length (liveQueue s t) < maxQueueSize \<longrightarrow>
        dlq (enqueue s t m) = dlq s
        \<and> liveQueue (enqueue s t m) t =
            splice_insert (findInsertIndex (prio m) (liveQueue s t) 0) m (liveQueue s t)
        \<and> mset (liveQueue (enqueue s t m) t) = add_mset m (mset (liveQueue s t))
        \<and> length (liveQueue (enqueue s t m) t) = Suc (length (liveQueue s t))"
    by (simp add: getDLQMessages_enqueue_below liveQueue_enqueue_below splice_insert_eq)
  have m: "maxQueueSize = 10000"
    by (simp add: maxQueueSize_def)
  show ?thesis
    by (rule conjI [OF m conjI [OF full below]])
qed

theorem C2_enqueue_overflow_to_dlq_witness:
  "maxQueueSize \<le> length (liveQueue full_queue ''orders'')
   \<and> length (liveQueue (enqueue full_queue ''orders'' (example_message ''new'' (Some ''critical'')))
        ''orders'') = 10000
   \<and> getDLQMessages (enqueue full_queue ''orders'' (example_message ''new'' (Some ''critical'')))
        ''orders'' = [example_message ''new'' (Some ''critical'')]
   \<and> length (liveQueue new_message_queue ''orders'') < maxQueueSize
   \<and> dlq (enqueue new_message_queue ''orders'' (example_message ''new'' None)) = Map.empty
   \<and> length (liveQueue (enqueue new_message_queue ''orders'' (example_message ''new'' None))
        ''orders'') = 1"
proof -
  have h1: "maxQueueSize \<le> length (liveQueue full_queue ''orders'')"
    by (simp add: liveQueue_def full_queue_def maxQueueSize_def)
  have h2: "length (liveQueue new_message_queue ''orders'') < maxQueueSize"
    by (simp add: maxQueueSize_def)
  have l: "length (liveQueue full_queue ''orders'') = 10000"
    by (simp add: liveQueue_def full_queue_def)
  have d: "getDLQMessages full_queue ''orders'' = []"
    by (simp add: getDLQMessages_def full_queue_def)
  have e: "dlq new_message_queue = Map.empty"
    by (simp add: new_message_queue_def)
  show ?thesis
    using h1 h2 l d e
      C2_enqueue_overflow_to_dlq [of full_queue "''orders''"
        "example_message ''new'' (Some ''critical'')"]
      C2_enqueue_overflow_to_dlq [of new_message_queue "''orders''"
        "example_message ''new'' None"]
    by (simp add: splice_insert_def)
qed

section \<open>Claims about the performance monitor\<close>

lemma nearest_rank_index_bounds:
  assumes "0 < n" and "0 < p" and "p \<le> 100"
  shows "0 \<le> nearest_rank_index n p" and "nearest_rank_index n p < int n"
proof -
  let ?x = "(of_nat n * of_int p) / (100 :: rat)"
  have pos: "0 < ?x"
    using assms by simp
  then have "0 < \<lceil>?x\<rceil>"
    by (simp add: less_ceiling_iff)
  then show "0 \<le> nearest_rank_index n p"
    by (simp add: nearest_rank_index_def)
  have "(of_int p :: rat) \<le> of_int 100"
    using assms by (simp only: of_int_le_iff)
  then have "(of_int p :: rat) \<le> 100"
    by simp
  then have "of_nat n * of_int p \<le> (of_nat n * 100 :: rat)"
    by (rule mult_left_mono) simp
  then have "?x \<le> of_int (int n)"
    by simp
  then have "\<lceil>?x\<rceil> \<le> int n"
    by (simp only: ceiling_le_iff)
  then show "nearest_rank_index n p < int n"
    by (simp add: nearest_rank_index_def)
qed

lemma getPercentile_nearest_rank:
  assumes "samples \<noteq> []" and "0 < p" and "p \<le> 100"
  shows "getPercentile samples p = sort samples ! nat (nearest_rank_index (length samples) p)"
  using nearest_rank_index_bounds [of "length samples" p] assms
  by (auto simp: getPercentile_def Let_def nearest_rank_index_def)

lemma map_of_getMetrics:
  "map_of ms k = Some samples \<Longrightarrow> samples \<noteq> [] \<Longrightarrow>
   map_of (map (\<lambda>(operation, samples). (operation, latency_entry samples))
             (filter (\<lambda>(operation, samples). length samples > 0) ms)) k
   = Some (latency_entry samples)"
  by (induction ms) (auto split: if_splits)

text \<open>
  C8. For every latency key whose window \<open>samples\<close> is non-empty, the entry that
  \<open>getMetrics\<close> reports under that key has as \<open>p95\<close> and \<open>p99\<close> the element of the
  ascending-sorted window at index \<open>ceil(n * 95 / 100) - 1\<close> and \<open>ceil(n * 99 / 100) - 1\<close>,
  where \<open>n\<close> is the window's length, and both indices lie inside the window. For the
  window 10, 20, 30, 40, 50 the index for 95 is 4 and \<open>p95\<close> is 50.
\<close>

theorem C8_percentile_nearest_rank:
  "(map_of (metrics pm) k = Some samples \<and> samples \<noteq> [] \<longrightarrow>
      (\<exists>e. map_of (latency (getMetrics pm)) k = Some e
        \<and> p95 e = sort samples ! nat (\<lceil>(of_nat (length samples) * 95) / (100 :: rat)\<rceil> - 1)
        \<and> p99 e = sort samples ! nat (\<lceil>(of_nat (length samples) * 99) / (100 :: rat)\<rceil> - 1)
        \<and> 0 \<le> \<lceil>(of_nat (length samples) * 95) / (100 :: rat)\<rceil> - 1
        \<and> \<lceil>(of_nat (length samples) * 95) / (100 :: rat)\<rceil> - 1 < int (length samples)
        \<and> 0 \<le> \<lceil>(of_nat (length samples) * 99) / (100 :: rat)\<rceil> - 1
        \<and> \<lceil>(of_nat (length samples) * 99) / (100 :: rat)\<rceil> - 1 < int (length samples)))
   \<and> \<lceil>(of_nat (length [10, 20, 30, 40, 50 :: int]) * 95) / (100 :: rat)\<rceil> - 1 = 4
   \<and> getPercentile [10, 20, 30, 40, 50] 95 = 50"
proof -
  have ex: "\<lceil>(of_nat (length [10, 20, 30, 40, 50 :: int]) * 95) / (100 :: rat)\<rceil> - 1 = 4"
    by (simp add: ceiling_unique)
  have "getPercentile [10, 20, 30, 40, 50] 95 = sort [10, 20, 30, 40, 50] ! nat 4"
    using getPercentile_nearest_rank [of "[10, 20, 30, 40, 50]" 95] ex
    by (simp add: nearest_rank_index_def)
  then have ex2: "getPercentile [10, 20, 30, 40, 50] 95 = 50"
    by simp
  have gen: "map_of (metrics pm) k = Some samples \<and> samples \<noteq> [] \<longrightarrow>
      (\<exists>e. map_of (latency (getMetrics pm)) k = Some e
        \<and> p95 e = sort samples ! nat (\<lceil>(of_nat (length samples) * 95) / (100 :: rat)\<rceil> - 1)
        \<and> p99 e = sort samples ! nat (\<lceil>(of_nat (length samples) * 99) / (100 :: rat)\<rceil> - 1)
        \<and> 0 \<le> \<lceil>(of_nat (length samples) * 95) / (100 :: rat)\<rceil> - 1
        \<and> \<lceil>(of_nat (length samples) * 95) / (100 :: rat)\<rceil> - 1 < int (length samples)
        \<and> 0 \<le> \<lceil>(of_nat (length samples) * 99) / (100 :: rat)\<rceil> - 1
        \<and> \<lceil>(of_nat (length samples) * 99) / (100 :: rat)\<rceil> - 1 < int (length samples))"
  proof
    assume a: "map_of (metrics pm) k = Some samples \<and> samples \<noteq> []"
    then have n: "0 < length samples" by simp
    have e: "map_of (latency (getMetrics pm)) k = Some (latency_entry samples)"
      using a map_of_getMetrics [of "metrics pm" k samples] by (simp add: getMetrics_def)
    have p: "p95 (latency_entry samples) = sort samples ! nat (nearest_rank_index (length samples) 95)"
      "p99 (latency_entry samples) = sort samples ! nat (nearest_rank_index (length samples) 99)"
      using a by (simp_all add: latency_entry_def getPercentile_nearest_rank)
    show "\<exists>e. map_of (latency (getMetrics pm)) k = Some e
        \<and> p95 e = sort samples ! nat (\<lceil>(of_nat (length samples) * 95) / (100 :: rat)\<rceil> - 1)
        \<and> p99 e = sort samples ! nat (\<lceil>(of_nat (length samples) * 99) / (100 :: rat)\<rceil> - 1)
        \<and> 0 \<le> \<lceil>(of_nat (length samples) * 95) / (100 :: rat)\<rceil> - 1
        \<and> \<lceil>(of_nat (length samples) * 95) / (100 :: rat)\<rceil> - 1 < int (length samples)
        \<and> 0 \<le> \<lceil>(of_nat (length samples) * 99) / (100 :: rat)\<rceil> - 1
        \<and> \<lceil>(of_nat (length samples) * 99) / (100 :: rat)\<rceil> - 1 < int (length samples)"
      using e p nearest_rank_index_bounds [OF n, of 95] nearest_rank_index_bounds [OF n, of 99]
      by (simp add: nearest_rank_index_def)
  qed
  show ?thesis
    by (rule conjI [OF gen conjI [OF ex ex2]])
qed

theorem C8_percentile_nearest_rank_witness:
  "map_of (metrics (recordLatency (recordLatency new_performance_monitor ''publish'' 20 (Some ''redis''))
        ''publish'' 10 (Some ''redis''))) ''redis.publish'' = Some [20, 10]
   \<and> (\<exists>e. map_of (latency (getMetrics (recordLatency
          (recordLatency new_performance_monitor ''publish'' 20 (Some ''redis''))
          ''publish'' 10 (Some ''redis'')))) ''redis.publish'' = Some e
        \<and> p95 e = 20 \<and> p99 e = 20)"
proof -
  let ?pm = "recordLatency (recordLatency new_performance_monitor ''publish'' 20 (Some ''redis''))
        ''publish'' 10 (Some ''redis'')"
  have m: "map_of (metrics ?pm) ''redis.publish'' = Some [20, 10]"
    by (simp add: recordLatency_def new_performance_monitor_def latency_key_def Let_def
        maxSamples_def)
  have i: "\<lceil>(of_nat (length [20, 10 :: int]) * 95) / (100 :: rat)\<rceil> - 1 = 1"
    "\<lceil>(of_nat (length [20, 10 :: int]) * 99) / (100 :: rat)\<rceil> - 1 = 1"
    by (simp_all add: ceiling_unique)
  show ?thesis
    using m i C8_percentile_nearest_rank [of ?pm "''redis.publish''" "[20, 10]"]
    by auto
qed

section \<open>Claims about the filter matcher\<close>

lemma every_entry_all:
  assumes "\<forall>(k, v) \<in> set fs. filter_entry_matches m k v \<noteq> None"
  shows "every_entry m fs = Some (\<forall>(k, v) \<in> set fs. filter_entry_matches m k v = Some True)"
  using assms
proof (induction fs)
  case Nil
  show ?case by simp
next
  case (Cons e es)
  obtain k v where e: "e = (k, v)"
    by (cases e)
  from Cons.prems e obtain b where b: "filter_entry_matches m k v = Some b"
    by auto
  from Cons have ih:
    "every_entry m es = Some (\<forall>(k, v) \<in> set es. filter_entry_matches m k v = Some True)"
    by simp
  show ?case
    by (cases b) (simp_all add: e b ih)
qed

lemma filter_entry_matches_plain:
  "\<not> is_wildcard v \<Longrightarrow> filter_entry_matches m k v = Some (strict_eq (msgValue m k) v)"
  by (cases v) (simp_all add: filter_entry_matches_def is_wildcard_def)

lemma filter_entry_matches_wildcard:
  "CHR ''*'' \<in> set s \<Longrightarrow> RegExp_new (replace_stars s) = Some regex \<Longrightarrow>
   filter_entry_matches m k (JStr s) = Some (RegExp_test regex (js_String (msgValue m k)))"
  by (simp add: filter_entry_matches_def)

lemma RegExp_new_plain:
  "plain_pattern s \<Longrightarrow> RegExp_new (replace_stars s) = Some (rx_of s)"
  by (induction s) (auto simp: plain_pattern_def rx_of_def)

lemma rx_of_simps [simp]:
  "rx_of [] = []"
  "rx_of (c # p) = (if c = CHR ''*'' then RAnyStar else RLit c) # rx_of p"
  by (simp_all add: rx_of_def)

lemma wildcard_match_star [simp]: "wildcard_match ''*'' s"
  by (induction s) auto

lemma rx_match_here_glob:
  "\<forall>c \<in> set s. \<not> line_terminator c \<Longrightarrow>
   rx_match_here (rx_of p) s = wildcard_match (p @ ''*'') s"
  by (induction p s rule: wildcard_match.induct) auto

lemma RegExp_test_glob:
  "\<forall>c \<in> set s. \<not> line_terminator c \<Longrightarrow>
   RegExp_test (rx_of p) s = wildcard_substring_match p s"
  by (induction s) (auto simp: rx_match_here_glob wildcard_substring_match_def)

text \<open>
  C5. Without filters \<open>matchesFilters\<close> returns true. With filters whose wildcard values
  stay inside the modelled pattern language, it returns true iff every entry matches:
  the candidate is \<open>msgValue\<close> (the payload's value under the key, falling back to the
  metadata's); for a string value with a star, the regular expression built from the value
  with each star replaced by \<^verbatim>\<open>.*\<close> must match somewhere in the stringified candidate;
  any other value must be strictly equal to the candidate. For a filter value without a
  dot or other special character and a candidate string without line terminators, that
  regular expression matches exactly when the value, read with each star standing for
  zero or more characters, matches a substring of the candidate. The filter
  \<^verbatim>\<open>{region: "us-*"}\<close> matches a message whose payload region is \<^verbatim>\<open>us-east\<close> and not one
  whose region is \<^verbatim>\<open>eu-west\<close>.
\<close>

theorem C5_matchesFilters_and_semantics:
  "matchesFilters m None = Some True
   \<and> ((\<forall>(k, v) \<in> set fs. \<forall>s. v = JStr s \<and> CHR ''*'' \<in> set s \<longrightarrow>
          RegExp_new (replace_stars s) \<noteq> None) \<longrightarrow>
       matchesFilters m (Some fs) =
         Some (\<forall>(k, v) \<in> set fs.
                 if is_wildcard v
                 then (\<exists>s regex. v = JStr s \<and> RegExp_new (replace_stars s) = Some regex
                         \<and> RegExp_test regex (js_String (msgValue m k)))
                 else strict_eq (msgValue m k) v))
   \<and> (plain_pattern s \<and> (\<forall>c \<in> set cand. \<not> line_terminator c) \<longrightarrow>
        (\<exists>regex. RegExp_new (replace_stars s) = Some regex
           \<and> RegExp_test regex cand = wildcard_substring_match s cand))
   \<and> matchesFilters (region_message ''us-east'') (Some [(''region'', JStr ''us-*'')]) = Some True
   \<and> matchesFilters (region_message ''eu-west'') (Some [(''region'', JStr ''us-*'')]) = Some False"
proof -
  have none: "matchesFilters m None = Some True"
    by (simp add: matchesFilters_def)
  have gen: "(\<forall>(k, v) \<in> set fs. \<forall>s. v = JStr s \<and> CHR ''*'' \<in> set s \<longrightarrow>
          RegExp_new (replace_stars s) \<noteq> None) \<longrightarrow>
       matchesFilters m (Some fs) =
         Some (\<forall>(k, v) \<in> set fs.
                 if is_wildcard v
                 then (\<exists>s regex. v = JStr s \<and> RegExp_new (replace_stars s) = Some regex
                         \<and> RegExp_test regex (js_String (msgValue m k)))
                 else strict_eq (msgValue m k) v)"
  proof
    assume ok: "\<forall>(k, v) \<in> set fs. \<forall>s. v = JStr s \<and> CHR ''*'' \<in> set s \<longrightarrow>
          RegExp_new (replace_stars s) \<noteq> None"
    have entry: "filter_entry_matches m k v =
        Some (if is_wildcard v
              then (\<exists>s regex. v = JStr s \<and> RegExp_new (replace_stars s) = Some regex
                      \<and> RegExp_test regex (js_String (msgValue m k)))
              else strict_eq (msgValue m k) v)"
      if kv: "(k, v) \<in> set fs" for k v
    proof (cases "is_wildcard v")
      case False
      then show ?thesis
        by (simp add: filter_entry_matches_plain)
    next
      case True
      then obtain s where s: "v = JStr s" "CHR ''*'' \<in> set s"
        by (auto simp: is_wildcard_def split: jsval.splits)
      with ok kv obtain regex where r: "RegExp_new (replace_stars s) = Some regex"
        by fastforce
      show ?thesis
        using True s r by (simp add: filter_entry_matches_wildcard)
    qed
    then have "\<forall>(k, v) \<in> set fs. filter_entry_matches m k v \<noteq> None"
      by auto
    then have "every_entry m fs =
        Some (\<forall>(k, v) \<in> set fs. filter_entry_matches m k v = Some True)"
      by (rule every_entry_all)
    also have "(\<forall>(k, v) \<in> set fs. filter_entry_matches m k v = Some True) =
        (\<forall>(k, v) \<in> set fs.
                 if is_wildcard v
                 then (\<exists>s regex. v = JStr s \<and> RegExp_new (replace_stars s) = Some regex
                         \<and> RegExp_test regex (js_String (msgValue m k)))
                 else strict_eq (msgValue m k) v)"
      using entry by (intro ball_cong refl) (auto split: prod.splits)
    finally show "matchesFilters m (Some fs) =
         Some (\<forall>(k, v) \<in> set fs.
                 if is_wildcard v
                 then (\<exists>s regex. v = JStr s \<and> RegExp_new (replace_stars s) = Some regex
                         \<and> RegExp_test regex (js_String (msgValue m k)))
                 else strict_eq (msgValue m k) v)"
      by (simp add: matchesFilters_def)
  qed
  have us: "matchesFilters (region_message ''us-east'') (Some [(''region'', JStr ''us-*'')])
      = Some True"
    by (simp add: matchesFilters_def filter_entry_matches_def rx_special_def msgValue_def
        js_or_def region_message_def line_terminator_def)
  have eu: "matchesFilters (region_message ''eu-west'') (Some [(''region'', JStr ''us-*'')])
      = Some False"
    by (simp add: matchesFilters_def filter_entry_matches_def rx_special_def msgValue_def
        js_or_def region_message_def line_terminator_def)
  have glob: "plain_pattern s \<and> (\<forall>c \<in> set cand. \<not> line_terminator c) \<longrightarrow>
        (\<exists>regex. RegExp_new (replace_stars s) = Some regex
           \<and> RegExp_test regex cand = wildcard_substring_match s cand)"
    by (simp add: RegExp_new_plain RegExp_test_glob)
  show ?thesis
    by (rule conjI [OF none conjI [OF gen conjI [OF glob conjI [OF us eu]]]])
qed

theorem C5_matchesFilters_and_semantics_witness:
  "RegExp_new (replace_stars ''us-*'') = Some [RLit CHR ''u'', RLit CHR ''s'', RLit CHR ''-'', RAnyStar]
   \<and> matchesFilters (region_message ''us-east'')
        (Some [(''region'', JStr ''us-*''), (''userId'', JNum 123)]) = Some True
   \<and> plain_pattern ''us-*'' \<and> list_all (\<lambda>c. \<not> line_terminator c) ''xx-us-east''
   \<and> (\<exists>regex. RegExp_new (replace_stars ''us-*'') = Some regex
          \<and> RegExp_test regex ''xx-us-east'' \<and> wildcard_substring_match ''us-*'' ''xx-us-east'')"
proof -
  have r: "RegExp_new (replace_stars ''us-*'') = Some [RLit CHR ''u'', RLit CHR ''s'', RLit CHR ''-'', RAnyStar]"
    by (simp add: rx_special_def)
  have h: "\<forall>(k, v) \<in> set [(''region'', JStr ''us-*''), (''userId'', JNum 123)].
      \<forall>s. v = JStr s \<and> CHR ''*'' \<in> set s \<longrightarrow> RegExp_new (replace_stars s) \<noteq> None"
    using r by simp
  have p: "plain_pattern ''us-*''"
    by (simp add: plain_pattern_def rx_special_def)
  have l: "\<forall>c \<in> set ''xx-us-east''. \<not> line_terminator c"
    by (simp add: line_terminator_def)
  have w: "wildcard_substring_match ''us-*'' ''xx-us-east''"
    by (simp add: wildcard_substring_match_def)
  have v: "msgValue (region_message ''us-east'') ''region'' = JStr ''us-east''"
    "msgValue (region_message ''us-east'') ''userId'' = JNum 123"
    by (simp_all add: msgValue_def js_or_def region_message_def)
  have t: "RegExp_test [RLit CHR ''u'', RLit CHR ''s'', RLit CHR ''-'', RAnyStar] ''us-east''"
    by simp
  from C5_matchesFilters_and_semantics [of "region_message ''us-east''"
      "[(''region'', JStr ''us-*''), (''userId'', JNum 123)]" "''us-*''" "''xx-us-east''"]
  have a: "matchesFilters (region_message ''us-east'')
        (Some [(''region'', JStr ''us-*''), (''userId'', JNum 123)]) =
      Some (\<forall>(k, v) \<in> set [(''region'', JStr ''us-*''), (''userId'', JNum 123)].
                 if is_wildcard v
                 then (\<exists>s regex. v = JStr s \<and> RegExp_new (replace_stars s) = Some regex
                         \<and> RegExp_test regex (js_String (msgValue (region_message ''us-east'') k)))
                 else strict_eq (msgValue (region_message ''us-east'') k) v)"
    and b: "\<exists>regex. RegExp_new (replace_stars ''us-*'') = Some regex
           \<and> RegExp_test regex ''xx-us-east'' = wildcard_substring_match ''us-*'' ''xx-us-east''"
    using h p l by blast+
  have "matchesFilters (region_message ''us-east'')
        (Some [(''region'', JStr ''us-*''), (''userId'', JNum 123)]) = Some True"
    unfolding a using r t v by (simp add: is_wildcard_def)
  moreover have "list_all (\<lambda>c. \<not> line_terminator c) ''xx-us-east''"
    by (simp add: line_terminator_def)
  ultimately show ?thesis
    using r p b w by blast
qed

text \<open>
  C10. When the payload's value under a filter key is falsy (as 0, false, the empty
  string and null are), the candidate compared is the metadata's value under that key,
  \<^verbatim>\<open>undefined\<close> when the metadata is absent or has no such key. So for a message whose
  payload has \<open>k\<close> equal to 0 and whose metadata lacks \<open>k\<close>, the filter \<^verbatim>\<open>{k: 0}\<close> does
  not match.
\<close>

theorem C10_falsy_payload_falls_back:
  "(\<not> truthy (js_get (payload m) k) \<longrightarrow> msgValue m k = record_get (metadata m) k)
   \<and> \<not> truthy (JNum 0) \<and> \<not> truthy (JBool False) \<and> \<not> truthy (JStr []) \<and> \<not> truthy JNull
   \<and> ((metadata m = None \<or> (\<exists>ps. metadata m = Some ps \<and> map_of ps k = None)) \<longrightarrow>
        record_get (metadata m) k = JUndefined)
   \<and> (payload m = JObj r ps \<and> map_of ps k = Some (JNum 0)
        \<and> (metadata m = None \<or> (\<exists>ps'. metadata m = Some ps' \<and> map_of ps' k = None)) \<longrightarrow>
        matchesFilters m (Some [(k, JNum 0)]) = Some False)"
  by (auto simp: msgValue_def js_or_def record_get_def matchesFilters_def
      filter_entry_matches_def)

theorem C10_falsy_payload_falls_back_witness:
  "\<not> truthy (js_get (payload zero_count_message) ''count'')
   \<and> payload zero_count_message = JObj 2 [(''count'', JNum 0)]
   \<and> map_of [(''count'', JNum 0)] ''count'' = Some (JNum 0)
   \<and> metadata zero_count_message = None
   \<and> msgValue zero_count_message ''count'' = JUndefined
   \<and> matchesFilters zero_count_message (Some [(''count'', JNum 0)]) = Some False"
proof -
  have h: "\<not> truthy (js_get (payload zero_count_message) ''count'')"
    "payload zero_count_message = JObj 2 [(''count'', JNum 0)]"
    "map_of [(''count'', JNum 0)] ''count'' = Some (JNum 0)"
    "metadata zero_count_message = None"
    by (simp_all add: zero_count_message_def)
  show ?thesis
    using h C10_falsy_payload_falls_back [of zero_count_message "''count''" 2
        "[(''count'', JNum 0)]"]
    by (simp add: record_get_def)
qed

section \<open>Claims about the retry handler\<close>

text \<open>
  C4, as stated, fails where the counter has reached \<open>maxRetries\<close>: the call removes the
  counter entry and writes an error line to the console, but its promise is fulfilled;
  no error reaches the caller.
\<close>

theorem C4_exhausted_not_surfaced_counterexample:
  "currentRetries exhausted_handler ''a'' = 3
   \<and> maxRetries exhausted_handler = 3
   \<and> settled (retry_handle exhausted_handler (example_message ''a'' None)) = Fulfilled"
  by (simp add: retry_handle_def exhausted_handler_def example_message_def currentRetries_def)

text \<open>
  C4, amended. On a call of \<open>handle\<close> for a message id whose counter is strictly below
  \<open>maxRetries\<close>, processing fails, the counter becomes one more, and one timer is started
  with delay \<open>retryDelay * 2 ^ attempt\<close>, \<open>attempt\<close> being the counter before the call
  (counted from zero); its callback only logs. On a call that finds the counter at or
  above \<open>maxRetries\<close>, the counter entry of the id is removed, an error line is written to
  the console, processing is not attempted, no timer is started, and the call returns
  normally. Counters of other ids are untouched in both cases.
\<close>

theorem C4_retry_backoff_and_exhaustion:
  "(int (currentRetries rh (msg_id m)) < maxRetries rh \<longrightarrow>
      currentRetries (handler_after (retry_handle rh m)) (msg_id m)
        = currentRetries rh (msg_id m) + 1
      \<and> map fst (timers (retry_handle rh m))
          = [retryDelay rh * 2 ^ currentRetries rh (msg_id m)]
      \<and> settled (retry_handle rh m) = Fulfilled)
   \<and> (maxRetries rh \<le> int (currentRetries rh (msg_id m)) \<longrightarrow>
      retryCount (handler_after (retry_handle rh m)) (msg_id m) = None
      \<and> timers (retry_handle rh m) = []
      \<and> console_out (retry_handle rh m)
          = [ConsoleError (''Message '' @ msg_id m @ '' exceeded max retries (''
               @ show_int (maxRetries rh) @ '')'')]
      \<and> settled (retry_handle rh m) = Fulfilled)
   \<and> (\<forall>i. i \<noteq> msg_id m \<longrightarrow>
        retryCount (handler_after (retry_handle rh m)) i = retryCount rh i)"
  by (simp add: retry_handle_def currentRetries_def processMessage_def Let_def)

theorem C4_retry_backoff_and_exhaustion_witness:
  "int (currentRetries (new_retry_handler 3 1000) (msg_id (example_message ''a'' None))) < 3
   \<and> currentRetries (handler_after (retry_handle (new_retry_handler 3 1000)
        (example_message ''a'' None))) ''a'' = 1
   \<and> map fst (timers (retry_handle (new_retry_handler 3 1000) (example_message ''a'' None)))
        = [1000]
   \<and> maxRetries exhausted_handler \<le> int (currentRetries exhausted_handler ''a'')
   \<and> retryCount (handler_after (retry_handle exhausted_handler (example_message ''a'' None)))
        ''a'' = None
   \<and> timers (retry_handle exhausted_handler (example_message ''a'' None)) = []
   \<and> ''b'' \<noteq> msg_id (example_message ''a'' None)
   \<and> retryCount (handler_after (retry_handle exhausted_handler (example_message ''a'' None)))
        ''b'' = None"
proof -
  have h: "int (currentRetries (new_retry_handler 3 1000) (msg_id (example_message ''a'' None))) < 3"
    "maxRetries (new_retry_handler 3 1000) = 3"
    "retryDelay (new_retry_handler 3 1000) = 1000"
    "currentRetries (new_retry_handler 3 1000) ''a'' = 0"
    "maxRetries exhausted_handler \<le> int (currentRetries exhausted_handler ''a'')"
    "msg_id (example_message ''a'' None) = ''a''"
    "retryCount exhausted_handler ''b'' = None"
    by (simp_all add: new_retry_handler_def currentRetries_def exhausted_handler_def
        example_message_def)
  show ?thesis
    using h
      C4_retry_backoff_and_exhaustion [of "new_retry_handler 3 1000" "example_message ''a'' None"]
      C4_retry_backoff_and_exhaustion [of exhausted_handler "example_message ''a'' None"]
    by simp
qed

section \<open>Claims about the circuit breaker\<close>











section \<open>Claims about the handler registry\<close>















section \<open>Claims about the drain loop\<close>

lemma queues_enqueue_other: "t' \<noteq> t \<Longrightarrow> queues (enqueue s t m) t' = queues s t'"
  by (auto simp: enqueue_def Let_def enqueueToDLQ_def)

lemma dlq_enqueue_other: "t' \<noteq> t \<Longrightarrow> dlq (enqueue s t m) t' = dlq s t'"
  by (auto simp: enqueue_def Let_def enqueueToDLQ_def)

lemma queues_dequeue_other: "t' \<noteq> t \<Longrightarrow> queues (snd (dequeue s t)) t' = queues s t'"
  by (auto simp: dequeue_def split: option.splits list.splits)

lemma dequeue_empty: "liveQueue s t = [] \<Longrightarrow> dequeue s t = (None, s)"
  by (auto simp: dequeue_def liveQueue_def split: option.splits list.splits)

lemma dequeue_cons:
  "liveQueue s t = m # rest \<Longrightarrow>
   dequeue s t = (Some m, s\<lparr> queues := (queues s)(t \<mapsto> rest) \<rparr>)"
  by (auto simp: dequeue_def liveQueue_def split: option.splits list.splits)

lemma liveQueue_upd [simp]: "liveQueue (s\<lparr> queues := (queues s)(t \<mapsto> q) \<rparr>) t = q"
  by (simp add: liveQueue_def)

text \<open>Queues built by \<open>enqueue\<close> and \<open>dequeue\<close> from the empty state stay within capacity.\<close>

lemma within_capacity_new: "within_capacity new_message_queue"
  by (simp add: within_capacity_def)

lemma within_capacity_enqueue:
  assumes "within_capacity s"
  shows "within_capacity (enqueue s t m)"
  unfolding within_capacity_def
proof
  fix t'
  from assms have l: "length (liveQueue s t') \<le> maxQueueSize"
    by (simp add: within_capacity_def)
  show "length (liveQueue (enqueue s t m) t') \<le> maxQueueSize"
  proof (cases "t' = t")
    case False
    with l show ?thesis by (simp add: liveQueue_enqueue_other)
  next
    case True
    show ?thesis
    proof (cases "length (liveQueue s t) < maxQueueSize")
      case True
      with \<open>t' = t\<close> show ?thesis by (simp add: liveQueue_enqueue_below)
    next
      case False
      with \<open>t' = t\<close> l show ?thesis by (simp add: liveQueue_enqueue_full)
    qed
  qed
qed

lemma within_capacity_dequeue:
  assumes "within_capacity s"
  shows "within_capacity (snd (dequeue s t))"
  unfolding within_capacity_def
proof
  fix t'
  from assms have "length (liveQueue s t') \<le> maxQueueSize"
    by (simp add: within_capacity_def)
  then show "length (liveQueue (snd (dequeue s t)) t') \<le> maxQueueSize"
    by (auto simp: liveQueue_dequeue)
qed

lemma processTopic_other:
  assumes "t' \<noteq> t"
  shows "queues (messageQueue (processTopic ad mgr t)) t' = queues (messageQueue mgr) t'"
    and "dlq (messageQueue (processTopic ad mgr t)) t' = dlq (messageQueue mgr) t'"
proof -
  obtain r q where d: "dequeue (messageQueue mgr) t = (r, q)"
    by (cases "dequeue (messageQueue mgr) t")
  have q: "queues q t' = queues (messageQueue mgr) t'" "dlq q = dlq (messageQueue mgr)"
    using queues_dequeue_other [OF assms, of "messageQueue mgr"] dlq_dequeue [of "messageQueue mgr" t] d
    by simp_all
  show "queues (messageQueue (processTopic ad mgr t)) t' = queues (messageQueue mgr) t'"
    using q assms
    by (auto simp: processTopic_def d queues_enqueue_other
        split: option.splits prod.splits publish_outcome.splits)
  show "dlq (messageQueue (processTopic ad mgr t)) t' = dlq (messageQueue mgr) t'"
    using q assms
    by (auto simp: processTopic_def d dlq_enqueue_other
        split: option.splits prod.splits publish_outcome.splits)
qed

lemma processTopic_fields [simp]:
  "subscriptionManager (processTopic ad mgr t) = subscriptionManager mgr"
  "isProcessing (processTopic ad mgr t) = isProcessing mgr"
  by (auto simp: processTopic_def split: option.splits prod.splits publish_outcome.splits)


lemma drain_other:
  "t \<notin> set ts \<Longrightarrow>
   queues (messageQueue (drain ad ts mgr)) t = queues (messageQueue mgr) t
   \<and> dlq (messageQueue (drain ad ts mgr)) t = dlq (messageQueue mgr) t"
  by (induction ts arbitrary: mgr) (auto simp: processTopic_other)

lemma liveQueue_cong: "queues s t = queues s' t \<Longrightarrow> liveQueue s t = liveQueue s' t"
  by (simp add: liveQueue_def)

lemma drain_liveQueue_other:
  "t \<notin> set ts \<Longrightarrow> liveQueue (messageQueue (drain ad ts mgr)) t = liveQueue (messageQueue mgr) t"
  by (rule liveQueue_cong) (simp add: drain_other)

lemma processTopic_empty:
  "liveQueue (messageQueue mgr) t = [] \<Longrightarrow> processTopic ad mgr t = mgr"
  by (simp add: processTopic_def dequeue_empty)

lemma processTopic_published:
  assumes "liveQueue (messageQueue mgr) t = m # rest"
    and "adapter_publish ad (adapter mgr) t m = (Published e, a)"
  shows "liveQueue (messageQueue (processTopic ad mgr t)) t = rest"
    and "dlq (messageQueue (processTopic ad mgr t)) = dlq (messageQueue mgr)"
    and "adapter (processTopic ad mgr t) = a"
    and "console (processTopic ad mgr t) = console mgr"
  using assms by (simp_all add: processTopic_def dequeue_cons)

lemma processTopic_failed:
  assumes "liveQueue (messageQueue mgr) t = m # rest"
    and "adapter_publish ad (adapter mgr) t m = (PublishFailed err, a)"
    and "length (m # rest) \<le> maxQueueSize"
  shows "liveQueue (messageQueue (processTopic ad mgr t)) t = insert_by_priority m rest"
    and "dlq (messageQueue (processTopic ad mgr t)) = dlq (messageQueue mgr)"
    and "adapter (processTopic ad mgr t) = a"
    and "console (processTopic ad mgr t) = console mgr @
           [ConsoleError (''Failed to publish message for topic '' @ t @ '': '' @ err)]"
proof -
  let ?q = "(messageQueue mgr)\<lparr> queues := (queues (messageQueue mgr))(t \<mapsto> rest) \<rparr>"
  have l: "length (liveQueue ?q t) < maxQueueSize"
    using assms(3) by simp
  have p: "processTopic ad mgr t = mgr\<lparr> adapter := a, messageQueue := enqueue ?q t m,
      console := console mgr @
        [ConsoleError (''Failed to publish message for topic '' @ t @ '': '' @ err)] \<rparr>"
    using assms by (simp add: processTopic_def dequeue_cons)
  show "liveQueue (messageQueue (processTopic ad mgr t)) t = insert_by_priority m rest"
    using liveQueue_enqueue_below [OF l, of m] by (simp add: p)
  show "dlq (messageQueue (processTopic ad mgr t)) = dlq (messageQueue mgr)"
    using getDLQMessages_enqueue_below [OF l, of m] by (simp add: p)
  show "adapter (processTopic ad mgr t) = a"
    by (simp add: p)
  show "console (processTopic ad mgr t) = console mgr @
           [ConsoleError (''Failed to publish message for topic '' @ t @ '': '' @ err)]"
    by (simp add: p)
qed

lemma processTopic_dlq:
  "length (liveQueue (messageQueue mgr) t) \<le> maxQueueSize \<Longrightarrow>
   dlq (messageQueue (processTopic ad mgr t)) = dlq (messageQueue mgr)"
proof (cases "liveQueue (messageQueue mgr) t")
  case Nil
  then show ?thesis by (simp add: processTopic_empty)
next
  case (Cons m rest)
  assume l: "length (liveQueue (messageQueue mgr) t) \<le> maxQueueSize"
  obtain o' a where p: "adapter_publish ad (adapter mgr) t m = (o', a)"
    by (cases "adapter_publish ad (adapter mgr) t m")
  show ?thesis
  proof (cases o')
    case (Published e)
    with Cons p show ?thesis by (simp add: processTopic_published)
  next
    case (PublishFailed err)
    with Cons p l show ?thesis by (simp add: processTopic_failed)
  qed
qed

lemma drain_dlq:
  "distinct ts \<Longrightarrow> \<forall>t \<in> set ts. length (liveQueue (messageQueue mgr) t) \<le> maxQueueSize \<Longrightarrow>
   dlq (messageQueue (drain ad ts mgr)) = dlq (messageQueue mgr)"
proof (induction ts arbitrary: mgr)
  case Nil
  show ?case by simp
next
  case (Cons t ts)
  have "\<forall>t' \<in> set ts. liveQueue (messageQueue (processTopic ad mgr t)) t'
      = liveQueue (messageQueue mgr) t'"
    using Cons.prems(1) by (auto intro!: liveQueue_cong processTopic_other)
  then have "\<forall>t' \<in> set ts. length (liveQueue (messageQueue (processTopic ad mgr t)) t') \<le> maxQueueSize"
    using Cons.prems(2) by simp
  then have "dlq (messageQueue (drain ad ts (processTopic ad mgr t)))
      = dlq (messageQueue (processTopic ad mgr t))"
    using Cons.prems(1) by (intro Cons.IH) auto
  then show ?case
    using Cons.prems(2) by (simp add: processTopic_dlq)
qed

lemma console_processTopic: "prefix (console mgr) (console (processTopic ad mgr t))"
  by (auto simp: processTopic_def split: option.splits prod.splits publish_outcome.splits)

lemma console_drain: "prefix (console mgr) (console (drain ad ts mgr))"
proof (induction ts arbitrary: mgr)
  case Nil
  show ?case by simp
next
  case (Cons t ts)
  show ?case
    using console_processTopic [of mgr ad t] Cons.IH [of "processTopic ad mgr t"]
    by (auto intro: prefix_order.trans)
qed

lemma topics_split:
  assumes "t \<in> set ts" and "distinct ts"
  shows "\<exists>post. ts = takeWhile (\<lambda>x. x \<noteq> t) ts @ t # post \<and> t \<notin> set post
     \<and> t \<notin> set (takeWhile (\<lambda>x. x \<noteq> t) ts)"
proof -
  from assms(1) have "dropWhile (\<lambda>x. x \<noteq> t) ts \<noteq> []"
    by (simp add: dropWhile_eq_Nil_conv)
  then obtain y post where d: "dropWhile (\<lambda>x. x \<noteq> t) ts = y # post"
    by (cases "dropWhile (\<lambda>x. x \<noteq> t) ts") auto
  then have "y = t"
    using hd_dropWhile [of "\<lambda>x. x \<noteq> t" ts] by force
  with d have s: "ts = takeWhile (\<lambda>x. x \<noteq> t) ts @ t # post"
    by (metis takeWhile_dropWhile_id)
  have "t \<notin> set (takeWhile (\<lambda>x. x \<noteq> t) ts)"
    by (auto dest: set_takeWhileD)
  moreover have "t \<notin> set post"
    using assms(2) s by (metis distinct_append distinct.simps(2))
  ultimately show ?thesis
    using s by blast
qed


lemma subscriptions_wf_subscribe:
  "subscriptions_wf sm \<Longrightarrow> subscriptions_wf (snd (subscribe sm s))"
  by (auto simp: subscriptions_wf_def subscribe_def Let_def update_conv' distinct_update
      simp del: map_of_eq_Some_iff split: option.splits)

lemma subscriptions_wf_unsubscribe:
  "subscriptions_wf sm \<Longrightarrow> subscriptions_wf (snd (unsubscribe sm t i))"
  by (auto simp: subscriptions_wf_def unsubscribe_def Let_def update_conv' delete_conv'
      distinct_update distinct_delete simp del: map_of_eq_Some_iff split: option.splits)

lemma subscriptions_wf_after: "subscriptions_wf (subscriptions_after calls)"
proof -
  have "subscriptions_wf sm \<Longrightarrow> subscriptions_wf (fold apply_subscription_call calls sm)"
    for sm :: "'a subscription_manager"
  proof (induction calls arbitrary: sm)
    case Nil
    then show ?case by simp
  next
    case (Cons c calls)
    have "subscriptions_wf (apply_subscription_call c sm)"
      using Cons.prems
      by (cases c) (simp_all add: subscriptions_wf_subscribe subscriptions_wf_unsubscribe)
    then show ?case
      by (simp add: Cons.IH)
  qed
  moreover have "subscriptions_wf (new_subscription_manager :: 'a subscription_manager)"
    by (simp add: subscriptions_wf_def new_subscription_manager_def)
  ultimately show ?thesis
    unfolding subscriptions_after_def by blast
qed

lemma topic_listed_iff:
  assumes "subscriptions_wf sm"
  shows "t \<in> set (getAllTopics sm) \<longleftrightarrow> getSubscriptions sm t \<noteq> []"
proof (cases "map_of (subscriptions sm) t")
  case None
  then have "t \<notin> fst ` set (subscriptions sm)"
    by (simp add: map_of_eq_None_iff)
  with None show ?thesis
    by (simp add: getAllTopics_def getSubscriptions_def)
next
  case (Some subs)
  with assms have "subs \<noteq> []"
    unfolding subscriptions_wf_def by metis
  moreover from Some have "t \<in> fst ` set (subscriptions sm)"
    by (metis map_of_eq_None_iff option.distinct(1))
  ultimately show ?thesis
    using Some by (simp add: getAllTopics_def getSubscriptions_def)
qed

lemma tick_idle: "isProcessing mgr \<Longrightarrow> tick ad mgr = mgr"
  by (simp add: tick_def)

lemma drain_fields [simp]:
  "subscriptionManager (drain ad ts mgr) = subscriptionManager mgr"
  "isProcessing (drain ad ts mgr) = isProcessing mgr"
  by (induction ts arbitrary: mgr) auto

lemma tick_fields [simp]: "subscriptionManager (tick ad mgr) = subscriptionManager mgr"
  by (simp add: tick_def processQueues_def)

lemma tick_other:
  "t \<notin> set (getAllTopics (subscriptionManager mgr)) \<Longrightarrow>
   queues (messageQueue (tick ad mgr)) t = queues (messageQueue mgr) t
   \<and> dlq (messageQueue (tick ad mgr)) t = dlq (messageQueue mgr) t"
  using drain_other [of t "getAllTopics (subscriptionManager mgr)" ad "mgr\<lparr> isProcessing := True \<rparr>"]
  by (simp add: tick_def processQueues_def)

lemma ticks_other:
  "t \<notin> set (getAllTopics (subscriptionManager mgr)) \<Longrightarrow>
   subscriptionManager ((tick ad ^^ n) mgr) = subscriptionManager mgr
   \<and> queues (messageQueue ((tick ad ^^ n) mgr)) t = queues (messageQueue mgr) t
   \<and> dlq (messageQueue ((tick ad ^^ n) mgr)) t = dlq (messageQueue mgr) t"
  by (induction n) (auto simp: tick_other)

lemma tick_at_topic:
  assumes "\<not> isProcessing mgr" and "distinct (getAllTopics (subscriptionManager mgr))"
    and "t \<in> set (getAllTopics (subscriptionManager mgr))"
  shows "liveQueue (messageQueue (manager_at ad mgr t)) t = liveQueue (messageQueue mgr) t"
    and "liveQueue (messageQueue (tick ad mgr)) t
         = liveQueue (messageQueue (processTopic ad (manager_at ad mgr t) t)) t"
    and "prefix (console (processTopic ad (manager_at ad mgr t) t)) (console (tick ad mgr))"
proof -
  let ?ts = "getAllTopics (subscriptionManager mgr)"
  let ?pre = "takeWhile (\<lambda>x. x \<noteq> t) ?ts"
  from topics_split [OF assms(3) assms(2)] obtain post where
    s: "?ts = ?pre @ t # post" and post: "t \<notin> set post" and pre: "t \<notin> set ?pre"
    by blast
  have m: "manager_at ad mgr t = drain ad ?pre (mgr\<lparr> isProcessing := True \<rparr>)"
    by (simp add: manager_at_def)
  show "liveQueue (messageQueue (manager_at ad mgr t)) t = liveQueue (messageQueue mgr) t"
    using drain_liveQueue_other [OF pre, of ad "mgr\<lparr> isProcessing := True \<rparr>"] by (simp add: m)
  have "processQueues ad (mgr\<lparr> isProcessing := True \<rparr>)
      = drain ad (?pre @ t # post) (mgr\<lparr> isProcessing := True \<rparr>)"
    using s by (simp add: processQueues_def)
  then have p: "processQueues ad (mgr\<lparr> isProcessing := True \<rparr>)
      = drain ad post (processTopic ad (manager_at ad mgr t) t)"
    by (simp add: m)
  show "liveQueue (messageQueue (tick ad mgr)) t
         = liveQueue (messageQueue (processTopic ad (manager_at ad mgr t) t)) t"
    using assms(1) drain_liveQueue_other [OF post] by (simp add: tick_def p)
  show "prefix (console (processTopic ad (manager_at ad mgr t) t)) (console (tick ad mgr))"
    using assms(1) console_drain [of "processTopic ad (manager_at ad mgr t) t" ad post]
    by (simp add: tick_def p)
qed

lemma tick_dlq:
  assumes "\<not> isProcessing mgr" and "distinct (getAllTopics (subscriptionManager mgr))"
    and "within_capacity (messageQueue mgr)"
  shows "dlq (messageQueue (tick ad mgr)) = dlq (messageQueue mgr)"
  using assms drain_dlq [of "getAllTopics (subscriptionManager mgr)" "mgr\<lparr> isProcessing := True \<rparr>" ad]
  by (simp add: tick_def processQueues_def within_capacity_def)




text \<open>
  C7. A tick that finds the previous one still running does nothing. Otherwise, with the
  subscription topics distinct and every live queue within capacity, a tick handles each
  subscribed topic once, with that topic's queue as it was when the tick began: from an
  empty queue nothing is taken and the adapter is not called; from a non-empty queue the
  head is taken and \<open>adapter.publish\<close> is called once for it. When that call succeeds
  the queue is left without its head; when it fails the head is inserted again by
  priority into the same topic's queue, which then holds the same messages as before the
  tick, and the failure is written to the console. The dead-letter store is unchanged,
  and the tick is a total function of the state: it has no failing outcome.
\<close>

theorem C7_tick_requeues_failed_publish:
  "(isProcessing mgr \<longrightarrow> tick ad mgr = mgr)
   \<and> (\<not> isProcessing mgr \<and> distinct (getAllTopics (subscriptionManager mgr))
        \<and> within_capacity (messageQueue mgr)
        \<and> t \<in> set (getAllTopics (subscriptionManager mgr)) \<longrightarrow>
        dlq (messageQueue (tick ad mgr)) = dlq (messageQueue mgr)
        \<and> liveQueue (messageQueue (manager_at ad mgr t)) t = liveQueue (messageQueue mgr) t
        \<and> (liveQueue (messageQueue mgr) t = [] \<longrightarrow>
              liveQueue (messageQueue (tick ad mgr)) t = []
              \<and> adapter (processTopic ad (manager_at ad mgr t) t) = adapter (manager_at ad mgr t))
        \<and> (\<forall>m rest. liveQueue (messageQueue mgr) t = m # rest \<longrightarrow>
              adapter (processTopic ad (manager_at ad mgr t) t)
                = snd (adapter_publish ad (adapter (manager_at ad mgr t)) t m)
              \<and> (\<forall>elapsed. fst (adapter_publish ad (adapter (manager_at ad mgr t)) t m)
                     = Published elapsed \<longrightarrow>
                    liveQueue (messageQueue (tick ad mgr)) t = rest)
              \<and> (\<forall>err. fst (adapter_publish ad (adapter (manager_at ad mgr t)) t m)
                     = PublishFailed err \<longrightarrow>
                    liveQueue (messageQueue (tick ad mgr)) t = insert_by_priority m rest
                    \<and> mset (liveQueue (messageQueue (tick ad mgr)) t)
                        = mset (liveQueue (messageQueue mgr) t)
                    \<and> ConsoleError (''Failed to publish message for topic '' @ t @ '': '' @ err)
                        \<in> set (console (tick ad mgr)))))"
proof -
  have idle: "isProcessing mgr \<longrightarrow> tick ad mgr = mgr"
    by (simp add: tick_idle)
  have busy: "dlq (messageQueue (tick ad mgr)) = dlq (messageQueue mgr)
        \<and> liveQueue (messageQueue (manager_at ad mgr t)) t = liveQueue (messageQueue mgr) t
        \<and> (liveQueue (messageQueue mgr) t = [] \<longrightarrow>
              liveQueue (messageQueue (tick ad mgr)) t = []
              \<and> adapter (processTopic ad (manager_at ad mgr t) t) = adapter (manager_at ad mgr t))
        \<and> (\<forall>m rest. liveQueue (messageQueue mgr) t = m # rest \<longrightarrow>
              adapter (processTopic ad (manager_at ad mgr t) t)
                = snd (adapter_publish ad (adapter (manager_at ad mgr t)) t m)
              \<and> (\<forall>elapsed. fst (adapter_publish ad (adapter (manager_at ad mgr t)) t m)
                     = Published elapsed \<longrightarrow>
                    liveQueue (messageQueue (tick ad mgr)) t = rest)
              \<and> (\<forall>err. fst (adapter_publish ad (adapter (manager_at ad mgr t)) t m)
                     = PublishFailed err \<longrightarrow>
                    liveQueue (messageQueue (tick ad mgr)) t = insert_by_priority m rest
                    \<and> mset (liveQueue (messageQueue (tick ad mgr)) t)
                        = mset (liveQueue (messageQueue mgr) t)
                    \<and> ConsoleError (''Failed to publish message for topic '' @ t @ '': '' @ err)
                        \<in> set (console (tick ad mgr))))"
    if np: "\<not> isProcessing mgr" and di: "distinct (getAllTopics (subscriptionManager mgr))"
      and cap: "within_capacity (messageQueue mgr)"
      and t: "t \<in> set (getAllTopics (subscriptionManager mgr))"
  proof -
    let ?at = "manager_at ad mgr t"
    note at = tick_at_topic [OF np di t, of ad]
    have d: "dlq (messageQueue (tick ad mgr)) = dlq (messageQueue mgr)"
      using np di cap by (rule tick_dlq)
    have e: "liveQueue (messageQueue (tick ad mgr)) t = []
        \<and> adapter (processTopic ad ?at t) = adapter ?at"
      if "liveQueue (messageQueue mgr) t = []"
      using that at(1,2) by (simp add: processTopic_empty)
    have c: "adapter (processTopic ad ?at t) = snd (adapter_publish ad (adapter ?at) t m)
        \<and> (\<forall>elapsed. fst (adapter_publish ad (adapter ?at) t m) = Published elapsed \<longrightarrow>
              liveQueue (messageQueue (tick ad mgr)) t = rest)
        \<and> (\<forall>err. fst (adapter_publish ad (adapter ?at) t m) = PublishFailed err \<longrightarrow>
              liveQueue (messageQueue (tick ad mgr)) t = insert_by_priority m rest
              \<and> mset (liveQueue (messageQueue (tick ad mgr)) t)
                  = mset (liveQueue (messageQueue mgr) t)
              \<and> ConsoleError (''Failed to publish message for topic '' @ t @ '': '' @ err)
                  \<in> set (console (tick ad mgr)))"
      if q: "liveQueue (messageQueue mgr) t = m # rest" for m rest
    proof -
      have q': "liveQueue (messageQueue ?at) t = m # rest"
        using q at(1) by simp
      have len: "length (m # rest) \<le> maxQueueSize"
        using cap q by (metis within_capacity_def)
      obtain out a where p: "adapter_publish ad (adapter ?at) t m = (out, a)"
        by (cases "adapter_publish ad (adapter ?at) t m")
      show ?thesis
      proof (cases out)
        case (Published elapsed)
        with p processTopic_published [OF q', of ad elapsed a] at(2) show ?thesis
          by simp
      next
        case (PublishFailed err)
        note f = processTopic_failed [OF q' p [unfolded PublishFailed] len]
        have "ConsoleError (''Failed to publish message for topic '' @ t @ '': '' @ err)
            \<in> set (console (processTopic ad ?at t))"
          by (simp add: f(4))
        then have "ConsoleError (''Failed to publish message for topic '' @ t @ '': '' @ err)
            \<in> set (console (tick ad mgr))"
          using at(3) set_mono_prefix by blast
        with p PublishFailed f at(2) q show ?thesis
          by simp
      qed
    qed
    show ?thesis
      using d at(1) e c by blast
  qed
  show ?thesis
    using idle busy by blast
qed


lemma example_manager_topics:
  "getAllTopics (subscriptionManager example_manager) = [''orders'', ''audit'']"
  by (simp add: example_manager_def getAllTopics_def)

lemma example_manager_capacity: "within_capacity (messageQueue example_manager)"
  by (simp add: within_capacity_def example_manager_def liveQueue_def maxQueueSize_def)

lemma example_manager_queues:
  "liveQueue (messageQueue example_manager) ''orders''
     = [example_message ''a'' (Some ''high''), example_message ''b'' (Some ''high'')]"
  "liveQueue (messageQueue example_manager) ''audit'' = [example_message ''c'' None]"
  "queues (messageQueue example_manager) ''orphan''
     = Some [example_message ''d'' (Some ''critical'')]"
  by (simp_all add: example_manager_def liveQueue_def)

theorem C7_tick_requeues_failed_publish_witness:
  "\<not> isProcessing example_manager
   \<and> distinct (getAllTopics (subscriptionManager example_manager))
   \<and> within_capacity (messageQueue example_manager)
   \<and> ''orders'' \<in> set (getAllTopics (subscriptionManager example_manager))
   \<and> liveQueue (messageQueue example_manager) ''orders''
       = [example_message ''a'' (Some ''high''), example_message ''b'' (Some ''high'')]
   \<and> fst (adapter_publish flaky_adapter (adapter (manager_at flaky_adapter example_manager ''orders''))
        ''orders'' (example_message ''a'' (Some ''high''))) = PublishFailed ''down''
   \<and> liveQueue (messageQueue (tick flaky_adapter example_manager)) ''orders''
       = [example_message ''b'' (Some ''high''), example_message ''a'' (Some ''high'')]
   \<and> ConsoleError ''Failed to publish message for topic orders: down''
       \<in> set (console (tick flaky_adapter example_manager))
   \<and> fst (adapter_publish flaky_adapter (adapter (manager_at flaky_adapter example_manager ''audit''))
        ''audit'' (example_message ''c'' None)) = Published 5
   \<and> liveQueue (messageQueue (tick flaky_adapter example_manager)) ''audit'' = []
   \<and> dlq (messageQueue (tick flaky_adapter example_manager)) = Map.empty"
proof -
  have h: "\<not> isProcessing example_manager"
    "distinct (getAllTopics (subscriptionManager example_manager))"
    "''orders'' \<in> set (getAllTopics (subscriptionManager example_manager))"
    "''audit'' \<in> set (getAllTopics (subscriptionManager example_manager))"
    by (simp_all add: example_manager_topics) (simp add: example_manager_def)
  note cap = example_manager_capacity
  have f: "fst (adapter_publish flaky_adapter a ''orders'' m) = PublishFailed ''down''"
    "fst (adapter_publish flaky_adapter a ''audit'' m) = Published 5" for a m
    by (simp_all add: flaky_adapter_def)
  have d: "dlq (messageQueue example_manager) = Map.empty"
    by (simp add: example_manager_def)
  note o = C7_tick_requeues_failed_publish [of example_manager flaky_adapter "''orders''"]
  note a = C7_tick_requeues_failed_publish [of example_manager flaky_adapter "''audit''"]
  have r1: "liveQueue (messageQueue (tick flaky_adapter example_manager)) ''orders''
       = insert_by_priority (example_message ''a'' (Some ''high''))
           [example_message ''b'' (Some ''high'')]"
    and r2: "ConsoleError (''Failed to publish message for topic '' @ ''orders'' @ '': '' @ ''down'')
       \<in> set (console (tick flaky_adapter example_manager))"
    and r3: "dlq (messageQueue (tick flaky_adapter example_manager)) = dlq (messageQueue example_manager)"
    using o h cap example_manager_queues(1) f(1) by blast+
  have r4: "liveQueue (messageQueue (tick flaky_adapter example_manager)) ''audit'' = []"
    using a h cap example_manager_queues(2) f(2) by blast
  have i: "insert_by_priority (example_message ''a'' (Some ''high''))
           [example_message ''b'' (Some ''high'')]
       = [example_message ''b'' (Some ''high''), example_message ''a'' (Some ''high'')]"
    by (simp add: example_message_def)
  show ?thesis
    using h cap example_manager_queues(1) f r1 r2 r3 r4 d i by simp
qed

text \<open>
  C9. A tick walks the subscription manager's topic list, and in a registry built by
  subscribe and unsubscribe calls a topic is on that list exactly when it has at least one
  subscription. For a topic that is not on the list, any number of ticks leave its queue
  and its dead-letter list as they are, although \<open>publish\<close> enqueues to such a topic: a
  message published there stays in the queue where \<open>publish\<close> inserted it.
\<close>

theorem C9_unsubscribed_topics_untouched:
  "(t \<notin> set (getAllTopics (subscriptionManager mgr)) \<longrightarrow>
      queues (messageQueue ((tick ad ^^ n) mgr)) t = queues (messageQueue mgr) t
      \<and> dlq (messageQueue ((tick ad ^^ n) mgr)) t = dlq (messageQueue mgr) t)
   \<and> (t \<in> set (getAllTopics (subscriptions_after calls))
        \<longleftrightarrow> getSubscriptions (subscriptions_after calls) t \<noteq> [])
   \<and> (length (liveQueue (messageQueue mgr) t) < maxQueueSize \<longrightarrow>
        liveQueue (messageQueue (publish mgr t pl options now rnd)) t
          = insert_by_priority (build_message t pl options now rnd) (liveQueue (messageQueue mgr) t))
   \<and> (t \<notin> set (getAllTopics (subscriptionManager mgr))
        \<and> length (liveQueue (messageQueue mgr) t) < maxQueueSize \<longrightarrow>
        liveQueue (messageQueue ((tick ad ^^ n) (publish mgr t pl options now rnd))) t
          = insert_by_priority (build_message t pl options now rnd) (liveQueue (messageQueue mgr) t))"
proof -
  have a: "t \<notin> set (getAllTopics (subscriptionManager mgr)) \<longrightarrow>
      queues (messageQueue ((tick ad ^^ n) mgr)) t = queues (messageQueue mgr) t
      \<and> dlq (messageQueue ((tick ad ^^ n) mgr)) t = dlq (messageQueue mgr) t"
    using ticks_other [where t = t and mgr = mgr and ad = ad and n = n] by simp
  have b: "t \<in> set (getAllTopics (subscriptions_after calls))
        \<longleftrightarrow> getSubscriptions (subscriptions_after calls) t \<noteq> []"
    using subscriptions_wf_after by (rule topic_listed_iff)
  have c: "length (liveQueue (messageQueue mgr) t) < maxQueueSize \<longrightarrow>
        liveQueue (messageQueue (publish mgr t pl options now rnd)) t
          = insert_by_priority (build_message t pl options now rnd) (liveQueue (messageQueue mgr) t)"
    by (simp add: publish_def liveQueue_enqueue_below)
  have d: "t \<notin> set (getAllTopics (subscriptionManager mgr))
        \<and> length (liveQueue (messageQueue mgr) t) < maxQueueSize \<longrightarrow>
        liveQueue (messageQueue ((tick ad ^^ n) (publish mgr t pl options now rnd))) t
          = insert_by_priority (build_message t pl options now rnd) (liveQueue (messageQueue mgr) t)"
  proof
    assume h: "t \<notin> set (getAllTopics (subscriptionManager mgr))
        \<and> length (liveQueue (messageQueue mgr) t) < maxQueueSize"
    let ?p = "publish mgr t pl options now rnd"
    have "t \<notin> set (getAllTopics (subscriptionManager ?p))"
      using h by (simp add: publish_def)
    then have "queues (messageQueue ((tick ad ^^ n) ?p)) t = queues (messageQueue ?p) t"
      using ticks_other [where t = t and mgr = ?p and ad = ad and n = n] by simp
    then have "liveQueue (messageQueue ((tick ad ^^ n) ?p)) t = liveQueue (messageQueue ?p) t"
      by (rule liveQueue_cong)
    with c h show "liveQueue (messageQueue ((tick ad ^^ n) ?p)) t
          = insert_by_priority (build_message t pl options now rnd) (liveQueue (messageQueue mgr) t)"
      by simp
  qed
  show ?thesis
    by (rule conjI [OF a conjI [OF b conjI [OF c d]]])
qed

theorem C9_unsubscribed_topics_untouched_witness:
  "''orphan'' \<notin> set (getAllTopics (subscriptionManager example_manager))
   \<and> queues (messageQueue ((tick flaky_adapter ^^ 2) example_manager)) ''orphan''
       = Some [example_message ''d'' (Some ''critical'')]
   \<and> dlq (messageQueue ((tick flaky_adapter ^^ 2) example_manager)) ''orphan'' = None
   \<and> length (liveQueue (messageQueue example_manager) ''orphan'') < maxQueueSize
   \<and> liveQueue (messageQueue ((tick flaky_adapter ^^ 2)
        (publish example_manager ''orphan'' JNull None 7 ''x''))) ''orphan''
       = [example_message ''d'' (Some ''critical''), build_message ''orphan'' JNull None 7 ''x'']"
proof -
  have h: "''orphan'' \<notin> set (getAllTopics (subscriptionManager example_manager))"
    by (simp add: example_manager_topics)
  have q: "liveQueue (messageQueue example_manager) ''orphan''
      = [example_message ''d'' (Some ''critical'')]"
    using example_manager_queues(3) by (simp add: liveQueue_def)
  have l: "length (liveQueue (messageQueue example_manager) ''orphan'') < maxQueueSize"
    by (simp add: q maxQueueSize_def)
  have d: "dlq (messageQueue example_manager) ''orphan'' = None"
    by (simp add: example_manager_def)
  have i: "insert_by_priority (build_message ''orphan'' JNull None 7 ''x'')
        [example_message ''d'' (Some ''critical'')]
      = [example_message ''d'' (Some ''critical''), build_message ''orphan'' JNull None 7 ''x'']"
    by (simp add: example_message_def build_message_def getPriorityValue_def)
  show ?thesis
    using h l d q i example_manager_queues(3)
      C9_unsubscribed_topics_untouched [where t = "''orphan''" and mgr = example_manager
        and ad = flaky_adapter and n = 2 and pl = JNull and options = None and now = 7
        and rnd = "''x''" and calls = "[] :: unit subscription_call list"]
    by simp
qed

end
